theory Spec2Isabelle
  imports Main
begin

section \<open>JavaScript strings\<close>

text \<open>
  A JavaScript string is a sequence of UTF-16 code units.  It is modelled as a
  \<^typ>\<open>string\<close> whose characters are the code units below 256; the parser, the type
  mapper and the generators only ever compare against ASCII characters.
\<close>

definition dq :: char where
  "dq = CHR 0x22"

definition bslash :: char where
  "bslash = CHR 0x5C"

definition nl :: char where
  "nl = CHR 0x0A"

definition quoted :: "string \<Rightarrow> string" where
  "quoted s = dq # s @ [dq]"

text \<open>The class \<open>\s\<close> of regular expressions, which is also what \<open>trim\<close> strips:
  tab, line feed, vertical tab, form feed, carriage return, space and no-break space.\<close>

definition is_space :: "char \<Rightarrow> bool" where
  "is_space c = (c \<in> set [CHR 0x09, CHR 0x0A, CHR 0x0B, CHR 0x0C, CHR 0x0D, CHR 0x20, CHR 0xA0])"

definition lower_chars :: string where
  "lower_chars = ''abcdefghijklmnopqrstuvwxyz''"

definition upper_chars :: string where
  "upper_chars = ''ABCDEFGHIJKLMNOPQRSTUVWXYZ''"

definition digit_chars :: string where
  "digit_chars = ''0123456789''"

definition is_lower :: "char \<Rightarrow> bool" where
  "is_lower c = (c \<in> set lower_chars)"

definition is_upper :: "char \<Rightarrow> bool" where
  "is_upper c = (c \<in> set upper_chars)"

definition is_alpha :: "char \<Rightarrow> bool" where
  "is_alpha c = (is_lower c \<or> is_upper c)"

definition is_digit :: "char \<Rightarrow> bool" where
  "is_digit c = (c \<in> set digit_chars)"

text \<open>\<open>toLowerCase\<close> on one code unit: the ASCII capitals and the Latin-1 capitals
  (\<open>0xC0\<close> to \<open>0xDE\<close> without the multiplication sign) move up by 32.\<close>

definition lower_char :: "char \<Rightarrow> char" where
  "lower_char c =
     (let n = (of_char c :: nat)
      in if (65 \<le> n \<and> n \<le> 90) \<or> (192 \<le> n \<and> n \<le> 222 \<and> n \<noteq> 215)
         then char_of (n + 32) else c)"

definition toLowerCase :: "string \<Rightarrow> string" where
  "toLowerCase s = map lower_char s"

text \<open>\<open>toUpperCase\<close> on one code unit.  The capitals of \<open>0xB5\<close>, \<open>0xDF\<close> and \<open>0xFF\<close>
  lie outside the modelled range and none of them is an ASCII letter; these three
  units are left as they are.\<close>

definition upper_char :: "char \<Rightarrow> char" where
  "upper_char c =
     (let n = (of_char c :: nat)
      in if (97 \<le> n \<and> n \<le> 122) \<or> (224 \<le> n \<and> n \<le> 254 \<and> n \<noteq> 247)
         then char_of (n - 32) else c)"

definition toUpperCase :: "string \<Rightarrow> string" where
  "toUpperCase s = map upper_char s"

definition trim :: "string \<Rightarrow> string" where
  "trim s = rev (dropWhile is_space (rev (dropWhile is_space s)))"

definition startsWith :: "string \<Rightarrow> string \<Rightarrow> bool" where
  "startsWith s p = (take (length p) s = p)"

definition endsWith :: "string \<Rightarrow> string \<Rightarrow> bool" where
  "endsWith s p = (length p \<le> length s \<and> drop (length s - length p) s = p)"

text \<open>\<open>s.includes(p)\<close>: \<open>p\<close> occurs in \<open>s\<close> as a substring.\<close>

fun includes_str :: "string \<Rightarrow> string \<Rightarrow> bool" where
  "includes_str [] p = (p = [])"
| "includes_str (c # cs) p = (startsWith (c # cs) p \<or> includes_str cs p)"

text \<open>\<open>s.split(sep)\<close> for a separator of one character: never an empty array.\<close>

fun split_on :: "char \<Rightarrow> string \<Rightarrow> string list" where
  "split_on sep [] = [[]]"
| "split_on sep (c # cs) =
     (if c = sep then [] # split_on sep cs
      else (case split_on sep cs of
              [] \<Rightarrow> [[c]]
            | w # ws \<Rightarrow> (c # w) # ws))"

fun join :: "string \<Rightarrow> string list \<Rightarrow> string" where
  "join sep [] = []"
| "join sep [x] = x"
| "join sep (x # y # ys) = x @ sep @ join sep (y # ys)"

text \<open>A number in a template literal: the decimal digits of a natural number.\<close>

fun show_nat :: "nat \<Rightarrow> string" where
  "show_nat n =
     (if n < 10 then [digit_chars ! n]
      else show_nat (n div 10) @ [digit_chars ! (n mod 10)])"

section \<open>Regular expressions\<close>

text \<open>
  The patterns of the source are regular expression literals.  They are embedded as
  values of \<open>rx\<close> and run by a backtracking matcher that returns every way of
  matching a prefix, in the order in which the JavaScript matcher tries them: the left
  alternative first, the longest repetition first.  A matching state is the input
  still to be read and the capture groups set so far (the latest first).
\<close>

datatype rx =
    Eps
  | Sat "char \<Rightarrow> bool"
  | Seq rx rx
  | Alt rx rx
  | Star rx
  | Grp nat rx

type_synonym mstate = "string \<times> (nat \<times> string) list"

fun star_iter :: "(mstate \<Rightarrow> mstate list) \<Rightarrow> nat \<Rightarrow> mstate \<Rightarrow> mstate list" where
  "star_iter f 0 st = [st]"
| "star_iter f (Suc n) st =
     concat (map (star_iter f n)
               (filter (\<lambda>st'. length (fst st') < length (fst st)) (f st))) @ [st]"

primrec run :: "rx \<Rightarrow> mstate \<Rightarrow> mstate list" where
  "run Eps st = [st]"
| "run (Sat p) st =
     (case fst st of
        [] \<Rightarrow> []
      | c # cs \<Rightarrow> if p c then [(cs, snd st)] else [])"
| "run (Seq a b) st = concat (map (run b) (run a st))"
| "run (Alt a b) st = run a st @ run b st"
| "run (Star a) st = star_iter (run a) (length (fst st)) st"
| "run (Grp i a) st =
     map (\<lambda>st'. (fst st', (i, take (length (fst st) - length (fst st')) (fst st)) # snd st'))
         (run a st)"

text \<open>A pattern \<open>^...$\<close> matches when some way of matching reads the whole input; the
  first such way gives the capture groups.  A pattern \<open>^...\<close> matches a prefix.\<close>

definition match_full :: "rx \<Rightarrow> string \<Rightarrow> (nat \<times> string) list option" where
  "match_full r s =
     (case filter (\<lambda>st. fst st = []) (run r (s, [])) of
        [] \<Rightarrow> None
      | st # _ \<Rightarrow> Some (snd st))"

definition test_full :: "rx \<Rightarrow> string \<Rightarrow> bool" where
  "test_full r s = (match_full r s \<noteq> None)"

definition test_prefix :: "rx \<Rightarrow> string \<Rightarrow> bool" where
  "test_prefix r s = (run r (s, []) \<noteq> [])"

definition group :: "(nat \<times> string) list \<Rightarrow> nat \<Rightarrow> string option" where
  "group caps i = map_of caps i"

definition chr :: "char \<Rightarrow> rx" where
  "chr c = Sat (\<lambda>x. x = c)"

definition seqs :: "rx list \<Rightarrow> rx" where
  "seqs rs = foldr Seq rs Eps"

definition alts :: "rx list \<Rightarrow> rx" where
  "alts rs = foldr Alt (butlast rs) (last rs)"

definition lit :: "string \<Rightarrow> rx" where
  "lit s = seqs (map chr s)"

text \<open>With the flag \<open>i\<close> a letter of the pattern matches both of its ASCII cases, and
  no code unit above 127.  The patterns use it on letters only.\<close>

definition chr_i :: "char \<Rightarrow> rx" where
  "chr_i c = Sat (\<lambda>x. is_alpha x \<and> lower_char x = lower_char c)"

definition lit_i :: "string \<Rightarrow> rx" where
  "lit_i s = seqs (map chr_i s)"

definition Plus :: "rx \<Rightarrow> rx" where
  "Plus r = Seq r (Star r)"

definition Opt :: "rx \<Rightarrow> rx" where
  "Opt r = Alt r Eps"

definition ws :: rx where
  "ws = Star (Sat is_space)"

definition ws1 :: rx where
  "ws1 = Plus (Sat is_space)"

section \<open>The schema types\<close>

datatype AttributeKey = PK | FK | UK

datatype Cardinality = ZERO_OR_ONE | EXACTLY_ONE | ZERO_OR_MORE | ONE_OR_MORE

text \<open>
  \<open>CARDINALITY_SYMBOLS\<close> and \<open>TYPE_MAPPING\<close> are object literals, and the source reads
  them with an index expression \<open>table[key]\<close>.  Such a read finds the literal's own
  properties and, for a key the literal does not have, the members of
  \<open>Object.prototype\<close>; only a key found in neither gives \<open>undefined\<close>.  A value read
  from a table is therefore either a value of the table or an inherited member, which
  is a function (or, for \<open>__proto__\<close>, the prototype object) and is truthy.
\<close>

datatype 'a js_value = Val 'a | Inherited string

definition Object_prototype_keys :: "string list" where
  "Object_prototype_keys =
     [''constructor'', ''__defineGetter__'', ''__defineSetter__'', ''hasOwnProperty'',
      ''__lookupGetter__'', ''__lookupSetter__'', ''isPrototypeOf'',
      ''propertyIsEnumerable'', ''toString'', ''valueOf'', ''__proto__'',
      ''toLocaleString'']"

definition obj_get :: "(string \<times> 'a) list \<Rightarrow> string \<Rightarrow> 'a js_value option" where
  "obj_get table key =
     (case map_of table key of
        Some v \<Rightarrow> Some (Val v)
      | None \<Rightarrow> if key \<in> set Object_prototype_keys then Some (Inherited key) else None)"

text \<open>What a template literal prints for a value read from a table of strings.\<close>

definition to_text :: "string js_value \<Rightarrow> string" where
  "to_text v =
     (case v of
        Val s \<Rightarrow> s
      | Inherited k \<Rightarrow>
          if k = ''__proto__'' then ''[object Object]''
          else ''function '' @ (if k = ''constructor'' then ''Object'' else k)
               @ ''() { [native code] }'')"

record Attribute =
  attr_name :: string
  attr_type :: string
  keys :: "AttributeKey list"
  comment :: "string option"

record Entity =
  name :: string
  entity_alias :: "string option"
  attributes :: "Attribute list"

record Relationship =
  firstEntity :: string
  secondEntity :: string
  firstCardinality :: "Cardinality js_value"
  secondCardinality :: "Cardinality js_value"
  identifying :: bool
  label :: string

record DatabaseSchema =
  entities :: "Entity list"
  relationships :: "Relationship list"

record ParseResult =
  success :: bool
  schema :: "DatabaseSchema option"
  errors :: "string list option"

definition CARDINALITY_SYMBOLS :: "(string \<times> Cardinality) list" where
  "CARDINALITY_SYMBOLS =
     [(''|o'', ZERO_OR_ONE), (''o|'', ZERO_OR_ONE), (''||'', EXACTLY_ONE),
      (''}o'', ZERO_OR_MORE), (''o{'', ZERO_OR_MORE),
      (''}|'', ONE_OR_MORE), (''|{'', ONE_OR_MORE)]"

section \<open>The parser\<close>

subsection \<open>Patterns\<close>

definition ident_start :: "char \<Rightarrow> bool" where
  "ident_start c = (is_alpha c \<or> c = CHR ''_'')"

definition ident_char :: "char \<Rightarrow> bool" where
  "ident_char c = (is_alpha c \<or> is_digit c \<or> c = CHR ''_'' \<or> c = CHR ''-'')"

definition type_char :: "char \<Rightarrow> bool" where
  "type_char c = (is_alpha c \<or> is_digit c \<or> c \<in> set ''_-[]()'')"

text \<open>\<open>[a-zA-Z_][a-zA-Z0-9_-]*|\\"[^"]+\\"\<close>\<close>

definition entity_name_rx :: rx where
  "entity_name_rx =
     Alt (Seq (Sat ident_start) (Star (Sat ident_char)))
         (seqs [chr bslash, chr dq, Plus (Sat (\<lambda>c. c \<noteq> dq)), chr bslash, chr dq])"

text \<open>\<open>(\s*\[([^\]]+)\])?\<close>, the groups 2 and 3 of the entity patterns.\<close>

definition alias_rx :: rx where
  "alias_rx =
     Opt (Grp 2 (seqs [ws, chr CHR ''['', Grp 3 (Plus (Sat (\<lambda>c. c \<noteq> CHR '']''))), chr CHR '']'']))"

definition key_rx :: rx where
  "key_rx = alts [lit ''PK'', lit ''FK'', lit ''UK'']"

definition ER_DIAGRAM_START :: rx where
  "ER_DIAGRAM_START = seqs [ws, lit_i ''erDiagram'', ws]"

definition DIRECTION :: rx where
  "DIRECTION =
     seqs [ws, lit_i ''direction'', ws1,
           Grp 1 (alts [lit_i ''TB'', lit_i ''BT'', lit_i ''LR'', lit_i ''RL'']), ws]"

definition ENTITY_BLOCK_START :: rx where
  "ENTITY_BLOCK_START = seqs [ws, Grp 1 entity_name_rx, alias_rx, ws, chr CHR ''{'', ws]"

definition ENTITY_BLOCK_END :: rx where
  "ENTITY_BLOCK_END = seqs [ws, chr CHR ''}'', ws]"

definition ATTRIBUTE :: rx where
  "ATTRIBUTE =
     seqs [ws,
           Grp 1 (Seq (Sat is_alpha) (Star (Sat type_char))),
           ws1,
           Grp 2 (seqs [Opt (chr CHR ''*''), Sat ident_start, Star (Sat ident_char)]),
           Opt (Seq ws1 (Grp 3 (Seq key_rx (Star (seqs [ws, chr CHR '','', ws, key_rx]))))),
           Opt (seqs [ws1, chr dq, Grp 4 (Star (Sat (\<lambda>c. c \<noteq> dq))), chr dq]),
           ws]"

definition RELATIONSHIP :: rx where
  "RELATIONSHIP =
     seqs [ws,
           Grp 1 entity_name_rx,
           ws,
           Grp 2 (alts [lit ''|o'', lit ''o|'', lit ''||'', lit ''}|'', lit ''}o'',
                        lit ''o{'', lit ''|{'']),
           Grp 3 (Alt (lit ''--'') (lit ''..'')),
           Grp 4 (alts [lit ''o|'', lit ''o{'', lit ''||'', lit ''|o'', lit ''|{'',
                        lit ''{|'', lit ''{o'']),
           ws,
           Grp 5 entity_name_rx,
           ws, chr CHR '':'', ws,
           Opt (chr dq), Grp 6 (Plus (Sat (\<lambda>c. c \<noteq> dq))), Opt (chr dq),
           ws]"

definition STANDALONE_ENTITY :: rx where
  "STANDALONE_ENTITY = seqs [ws, Grp 1 entity_name_rx, alias_rx, ws]"

definition COMMENT :: rx where
  "COMMENT = seqs [ws, lit ''%%'']"

definition EMPTY :: rx where
  "EMPTY = ws"

subsection \<open>Helpers\<close>

definition parseCardinality :: "string \<Rightarrow> Cardinality js_value" where
  "parseCardinality symbol =
     (let normalized = filter (\<lambda>c. \<not> is_space c) symbol
      in if normalized = ''|o'' \<or> normalized = ''o|'' then Val ZERO_OR_ONE
         else if normalized = ''||'' then Val EXACTLY_ONE
         else if normalized = ''}o'' \<or> normalized = ''o{'' \<or> normalized = ''{o''
              then Val ZERO_OR_MORE
         else if normalized = ''}|'' \<or> normalized = ''|{'' \<or> normalized = ''{|''
              then Val ONE_OR_MORE
         else (case obj_get CARDINALITY_SYMBOLS normalized of
                 Some v \<Rightarrow> v
               | None \<Rightarrow> Val EXACTLY_ONE))"

fun push_keys :: "string list \<Rightarrow> AttributeKey list" where
  "push_keys [] = []"
| "push_keys (part # parts) =
     (if part = ''PK'' then PK # push_keys parts
      else if part = ''FK'' then FK # push_keys parts
      else if part = ''UK'' then UK # push_keys parts
      else push_keys parts)"

definition parseAttributeKeys :: "string option \<Rightarrow> AttributeKey list" where
  "parseAttributeKeys keyString =
     (case keyString of
        None \<Rightarrow> []
      | Some ks \<Rightarrow>
          if ks = [] then []
          else push_keys (map (\<lambda>k. toUpperCase (trim k)) (split_on CHR '','' ks)))"

text \<open>\<open>s.replace(/^"|"$/g, '')\<close>: a leading quote goes, and a trailing quote of what
  is left.\<close>

definition strip_quotes :: "string \<Rightarrow> string" where
  "strip_quotes s =
     (let s1 = (if startsWith s [dq] then drop 1 s else s)
      in if endsWith s1 [dq] then take (length s1 - 1) s1 else s1)"

text \<open>\<open>s.replace(/^\\"|\\"$/g, '')\<close>: the same for a backslash followed by a quote.\<close>

definition strip_escaped_quotes :: "string \<Rightarrow> string" where
  "strip_escaped_quotes s =
     (let s1 = (if startsWith s [bslash, dq] then drop 2 s else s)
      in if endsWith s1 [bslash, dq] then take (length s1 - 2) s1 else s1)"

definition cleanEntityName :: "string \<Rightarrow> string" where
  "cleanEntityName n = strip_escaped_quotes (strip_quotes n)"

subsection \<open>The entity table\<close>

text \<open>
  The parser keeps its entities in a \<open>Map\<close>, which iterates in the order in which the
  keys were first inserted: \<open>set\<close> on a key of the table replaces the value where it
  stands, \<open>set\<close> on a new key appends.  The table is a list of pairs.
\<close>

definition map_has :: "('k \<times> 'v) list \<Rightarrow> 'k \<Rightarrow> bool" where
  "map_has m k = (k \<in> set (map fst m))"

fun map_set :: "'k \<Rightarrow> 'v \<Rightarrow> ('k \<times> 'v) list \<Rightarrow> ('k \<times> 'v) list" where
  "map_set k v [] = [(k, v)]"
| "map_set k v (p # ps) = (if fst p = k then (k, v) # ps else p # map_set k v ps)"

definition map_values :: "('k \<times> 'v) list \<Rightarrow> 'v list" where
  "map_values m = map snd m"

subsection \<open>The loop over the lines\<close>

record parser_state =
  entity_map :: "(string \<times> Entity) list"
  rels :: "Relationship list"
  errs :: "string list"
  inERDiagram :: bool
  currentEntity :: "Entity option"
  inEntityBlock :: bool
  lineNumber :: nat

definition init_state :: parser_state where
  "init_state =
     \<lparr>entity_map = [], rels = [], errs = [], inERDiagram = False,
      currentEntity = None, inEntityBlock = False, lineNumber = 0\<rparr>"

definition new_entity :: "string \<Rightarrow> string option \<Rightarrow> Entity" where
  "new_entity n a = \<lparr>name = n, entity_alias = a, attributes = []\<rparr>"

text \<open>\<open>alias ? cleanEntityName(alias) : undefined\<close>\<close>

definition clean_alias :: "string option \<Rightarrow> string option" where
  "clean_alias a =
     (case a of
        None \<Rightarrow> None
      | Some al \<Rightarrow> if al = [] then None else Some (cleanEntityName al))"

definition attribute_error :: "nat \<Rightarrow> string \<Rightarrow> string" where
  "attribute_error n line =
     ''Line '' @ show_nat n @ '': Unable to parse attribute: '' @ quoted line"

definition make_attribute :: "(nat \<times> string) list \<Rightarrow> Attribute option" where
  "make_attribute caps =
     (case (group caps 1, group caps 2) of
        (Some ty, Some nm) \<Rightarrow>
          (let ks = parseAttributeKeys (group caps 3);
               ks' = (if startsWith nm ''*'' \<and> PK \<notin> set ks then PK # ks else ks)
           in Some \<lparr>attr_name = (if startsWith nm ''*'' then drop 1 nm else nm),
                     attr_type = ty, keys = ks', comment = group caps 4\<rparr>)
      | _ \<Rightarrow> None)"

definition make_relationship :: "(nat \<times> string) list \<Rightarrow> Relationship option" where
  "make_relationship caps =
     (case (group caps 1, group caps 2, group caps 3, group caps 4, group caps 5, group caps 6) of
        (Some first, Some leftCard, Some relationLine, Some rightCard, Some second, Some lbl) \<Rightarrow>
          Some \<lparr>firstEntity = cleanEntityName first,
                secondEntity = cleanEntityName second,
                firstCardinality = parseCardinality leftCard,
                secondCardinality = parseCardinality rightCard,
                identifying = (relationLine = ''--''),
                label = strip_quotes (trim lbl)\<rparr>
      | _ \<Rightarrow> None)"

definition ensure_entity :: "string \<Rightarrow> (string \<times> Entity) list \<Rightarrow> (string \<times> Entity) list" where
  "ensure_entity n m = (if map_has m n then m else map_set n (new_entity n None) m)"

text \<open>One turn of the loop \<open>for (const rawLine of lines)\<close>; each \<open>continue\<close> of the
  source is a branch that returns the state.\<close>

definition step :: "parser_state \<Rightarrow> string \<Rightarrow> parser_state" where
  "step s0 rawLine =
     (let s = s0\<lparr>lineNumber := lineNumber s0 + 1\<rparr>;
          line = trim rawLine
      in if test_full EMPTY line \<or> test_prefix COMMENT line then s
         else if test_full ER_DIAGRAM_START line then s\<lparr>inERDiagram := True\<rparr>
         else if \<not> inERDiagram s then s
         else if test_full DIRECTION line then s
         else if test_full ENTITY_BLOCK_END line then
           (case currentEntity s of
              Some e \<Rightarrow> s\<lparr>entity_map := map_set (name e) e (entity_map s),
                          currentEntity := None, inEntityBlock := False\<rparr>
            | None \<Rightarrow> s\<lparr>inEntityBlock := False\<rparr>)
         else if inEntityBlock s \<and> currentEntity s \<noteq> None then
           (case currentEntity s of
              None \<Rightarrow> s
            | Some e \<Rightarrow>
               (case Option.bind (match_full ATTRIBUTE line) make_attribute of
                  Some a \<Rightarrow> s\<lparr>currentEntity := Some (e\<lparr>attributes := attributes e @ [a]\<rparr>)\<rparr>
                | None \<Rightarrow> s\<lparr>errs := errs s @ [attribute_error (lineNumber s) line]\<rparr>))
         else
           (case match_full ENTITY_BLOCK_START line of
              Some caps \<Rightarrow>
                (case group caps 1 of
                   Some n \<Rightarrow>
                     s\<lparr>currentEntity :=
                           Some (new_entity (cleanEntityName n) (clean_alias (group caps 3))),
                       inEntityBlock := True\<rparr>
                 | None \<Rightarrow> s)
            | None \<Rightarrow>
               (case Option.bind (match_full RELATIONSHIP line) make_relationship of
                  Some r \<Rightarrow>
                    s\<lparr>entity_map :=
                          ensure_entity (secondEntity r) (ensure_entity (firstEntity r) (entity_map s)),
                      rels := rels s @ [r]\<rparr>
                | None \<Rightarrow>
                   (case match_full STANDALONE_ENTITY line of
                      Some caps \<Rightarrow>
                        (case group caps 1 of
                           Some n \<Rightarrow>
                             (if map_has (entity_map s) (cleanEntityName n) then s
                              else s\<lparr>entity_map :=
                                         map_set (cleanEntityName n)
                                           (new_entity (cleanEntityName n) (clean_alias (group caps 3)))
                                           (entity_map s)\<rparr>)
                         | None \<Rightarrow> s)
                    | None \<Rightarrow> s))))"

text \<open>After the loop an entity still open is stored; then the result is built.\<close>

definition close_open_entity :: "parser_state \<Rightarrow> parser_state" where
  "close_open_entity s =
     (case currentEntity s of
        Some e \<Rightarrow> s\<lparr>entity_map := map_set (name e) e (entity_map s)\<rparr>
      | None \<Rightarrow> s)"

definition run_lines :: "string list \<Rightarrow> parser_state" where
  "run_lines ls = close_open_entity (foldl step init_state ls)"

definition result_of :: "parser_state \<Rightarrow> ParseResult" where
  "result_of s =
     \<lparr>success = (errs s = []),
      schema = Some \<lparr>entities = map_values (entity_map s), relationships = rels s\<rparr>,
      errors = (if errs s \<noteq> [] then Some (errs s) else None)\<rparr>"

definition parseLines :: "string list \<Rightarrow> ParseResult" where
  "parseLines ls = result_of (run_lines ls)"

definition parseERDiagram :: "string \<Rightarrow> ParseResult" where
  "parseERDiagram input = parseLines (split_on nl input)"

subsection \<open>The validator\<close>

text \<open>\<open>xs.indexOf(x)\<close>: the first position of \<open>x\<close>, or \<open>-1\<close>.\<close>

fun indexOf :: "'a list \<Rightarrow> 'a \<Rightarrow> int" where
  "indexOf [] x = -1"
| "indexOf (y # ys) x =
     (if y = x then 0 else (let i = indexOf ys x in if i < 0 then -1 else i + 1))"

text \<open>\<open>entityNames.filter((name, index) => entityNames.indexOf(name) !== index)\<close>\<close>

definition duplicates :: "string list \<Rightarrow> string list" where
  "duplicates entityNames =
     map fst (filter (\<lambda>(n, index). indexOf entityNames n \<noteq> int index)
                (zip entityNames [0..<length entityNames]))"

definition dangling_errors :: "string list \<Rightarrow> Relationship list \<Rightarrow> string list" where
  "dangling_errors entityNames rs =
     concat (map (\<lambda>rel.
        (if firstEntity rel \<notin> set entityNames
         then [''Relationship references non-existent entity: '' @ firstEntity rel] else [])
        @ (if secondEntity rel \<notin> set entityNames
           then [''Relationship references non-existent entity: '' @ secondEntity rel] else []))
      rs)"

definition header_errors :: "string \<Rightarrow> string list" where
  "header_errors input =
     (if \<not> includes_str (toLowerCase input) ''erdiagram''
      then [''Diagram does not contain '' @ quoted ''erDiagram'' @ '' declaration'']
      else [])"

definition duplicate_errors :: "string list \<Rightarrow> string list" where
  "duplicate_errors entityNames =
     (if duplicates entityNames \<noteq> []
      then [''Duplicate entity names: '' @ join '', '' (duplicates entityNames)]
      else [])"

record ValidationResult =
  valid :: bool
  validation_errors :: "string list"

definition validateERDiagram :: "string \<Rightarrow> ValidationResult" where
  "validateERDiagram input =
     (let result = parseERDiagram input;
          errors0 = (case errors result of Some es \<Rightarrow> es | None \<Rightarrow> []);
          errors1 = errors0 @ header_errors input;
          errors2 =
            (case schema result of
               None \<Rightarrow> errors1
             | Some sch \<Rightarrow>
                 (let entityNames = map name (entities sch)
                  in errors1 @ duplicate_errors entityNames
                     @ dangling_errors entityNames (relationships sch)))
      in \<lparr>valid = (errors2 = []), validation_errors = errors2\<rparr>)"

section \<open>The SQL generator\<close>

definition TYPE_MAPPING :: "(string \<times> string) list" where
  "TYPE_MAPPING =
     [(''int'', ''INTEGER''), (''integer'', ''INTEGER''), (''bigint'', ''BIGINT''),
      (''smallint'', ''SMALLINT''), (''serial'', ''SERIAL''), (''bigserial'', ''BIGSERIAL''),
      (''decimal'', ''DECIMAL(10,2)''), (''numeric'', ''NUMERIC''), (''float'', ''FLOAT''),
      (''real'', ''REAL''), (''double'', ''DOUBLE PRECISION''),
      (''string'', ''VARCHAR(255)''), (''varchar'', ''VARCHAR(255)''), (''text'', ''TEXT''),
      (''char'', ''CHAR(1)''),
      (''boolean'', ''BOOLEAN''), (''bool'', ''BOOLEAN''),
      (''date'', ''DATE''), (''time'', ''TIME''), (''datetime'', ''TIMESTAMP''),
      (''timestamp'', ''TIMESTAMP''), (''timestamptz'', ''TIMESTAMPTZ''),
      (''uuid'', ''UUID''),
      (''json'', ''JSON''), (''jsonb'', ''JSONB''),
      (''bytea'', ''BYTEA''), (''blob'', ''BYTEA'')]"

datatype js_error = TypeError

text \<open>\<open>TYPE_MAPPING[key] || 'TEXT'\<close>\<close>

definition type_or_text :: "string \<Rightarrow> string js_value" where
  "type_or_text key =
     (case obj_get TYPE_MAPPING key of
        Some v \<Rightarrow> v
      | None \<Rightarrow> Val ''TEXT'')"

definition is_word :: "char \<Rightarrow> bool" where
  "is_word c = (is_alpha c \<or> is_digit c \<or> c = CHR ''_'')"

text \<open>\<open>/^(\w+)\((.+)\)$/\<close>; the dot is any character but a line terminator.\<close>

definition PARAM_TYPE :: rx where
  "PARAM_TYPE =
     seqs [Grp 1 (Plus (Sat is_word)), chr CHR ''('',
           Grp 2 (Plus (Sat (\<lambda>c. c \<noteq> CHR 0x0A \<and> c \<noteq> CHR 0x0D))), chr CHR '')'']"

text \<open>
  \<open>mapType\<close>.  In the branch for parameterized types the source calls
  \<open>pgBaseType.includes\<close>; an inherited member has no such method, and the call throws
  a \<open>TypeError\<close>.
\<close>

definition mapType :: "string \<Rightarrow> js_error + string js_value" where
  "mapType mermaidType =
     (let normalized = trim (toLowerCase mermaidType)
      in if endsWith normalized ''[]'' then
           (let baseType = take (length normalized - 2) normalized;
                pgType = type_or_text baseType
            in Inr (Val (to_text pgType @ ''[]'')))
         else
           (case match_full PARAM_TYPE normalized of
              None \<Rightarrow> Inr (type_or_text normalized)
            | Some caps \<Rightarrow>
               (case (group caps 1, group caps 2) of
                  (Some baseType, Some ps) \<Rightarrow>
                    (case obj_get TYPE_MAPPING baseType of
                       None \<Rightarrow> Inr (type_or_text normalized)
                     | Some (Inherited k) \<Rightarrow> Inl TypeError
                     | Some (Val pgBaseType) \<Rightarrow>
                         if CHR ''('' \<in> set pgBaseType
                         then Inr (Val (takeWhile (\<lambda>c. c \<noteq> CHR ''('') pgBaseType
                                        @ ''('' @ ps @ '')''))
                         else Inr (Val (pgBaseType @ ''('' @ ps @ '')'')))
                | _ \<Rightarrow> Inr (type_or_text normalized))))"

text \<open>\<open>s.replace(/([a-z])([A-Z])/g, '$1_$2')\<close>: the scan resumes behind each match.\<close>

fun camel_split :: "string \<Rightarrow> string" where
  "camel_split (a # b # rest) =
     (if is_lower a \<and> is_upper b then a # CHR ''_'' # b # camel_split rest
      else a # camel_split (b # rest))"
| "camel_split s = s"

definition is_sep :: "char \<Rightarrow> bool" where
  "is_sep c = (c = CHR ''-'' \<or> is_space c)"

text \<open>\<open>s.replace(/[-\s]+/g, '_')\<close>\<close>

function collapse_seps :: "string \<Rightarrow> string" where
  "collapse_seps [] = []"
| "collapse_seps (c # cs) =
     (if is_sep c then CHR ''_'' # collapse_seps (dropWhile is_sep cs)
      else c # collapse_seps cs)"
  by pat_completeness auto
termination
  by (relation "measure length") (auto simp: less_Suc_eq_le length_dropWhile_le)

definition toTableName :: "string \<Rightarrow> string" where
  "toTableName entityName = toLowerCase (collapse_seps (camel_split entityName))"

definition toColumnName :: "string \<Rightarrow> string" where
  "toColumnName attributeName = toLowerCase (collapse_seps (camel_split attributeName))"

definition has_key :: "AttributeKey \<Rightarrow> Attribute \<Rightarrow> bool" where
  "has_key k a = (k \<in> set (keys a))"

text \<open>The loop that builds the column definitions; an exception of \<open>mapType\<close> ends it.\<close>

fun column_loop :: "string list \<Rightarrow> Attribute list \<Rightarrow> js_error + string list" where
  "column_loop columns [] = Inr columns"
| "column_loop columns (attr # rest) =
     (case mapType (attr_type attr) of
        Inl e \<Rightarrow> Inl e
      | Inr colType \<Rightarrow>
          (let colDef = ''  '' @ quoted (toColumnName (attr_name attr)) @ '' '' @ to_text colType;
               colDef' = (if has_key PK attr then colDef @ '' NOT NULL'' else colDef)
           in column_loop (columns @ [colDef']) rest))"

definition primary_key_constraint :: "Attribute list \<Rightarrow> string list" where
  "primary_key_constraint attrs =
     (let pkColumns = map (\<lambda>a. quoted (toColumnName (attr_name a))) (filter (has_key PK) attrs)
      in if pkColumns \<noteq> [] then [''  PRIMARY KEY ('' @ join '', '' pkColumns @ '')''] else [])"

definition unique_constraints :: "Attribute list \<Rightarrow> string list" where
  "unique_constraints attrs =
     foldl (\<lambda>constraints ukCol.
              constraints @ [''  UNIQUE ('' @ quoted (toColumnName (attr_name ukCol)) @ '')''])
       [] (filter (\<lambda>a. has_key UK a \<and> \<not> has_key PK a) attrs)"

definition generateCreateTable :: "Entity \<Rightarrow> js_error + string" where
  "generateCreateTable entity =
     (case column_loop [] (attributes entity) of
        Inl e \<Rightarrow> Inl e
      | Inr columns \<Rightarrow>
          (let constraints = primary_key_constraint (attributes entity)
                             @ unique_constraints (attributes entity);
               allParts = columns @ constraints
           in Inr (''CREATE TABLE IF NOT EXISTS '' @ quoted (toTableName (name entity))
                   @ '' ('' @ [nl] @ join ('','' @ [nl]) allParts @ [nl] @ '');'')))"

text \<open>
  \<open>generateForeignKeys\<close>.  The lookup table is a \<open>Map\<close> from the lower-cased entity
  names; the inner loop walks its entries and stops at the first whose key, passed
  through \<open>toTableName\<close>, is the candidate table.
\<close>

definition build_entityMap :: "Entity list \<Rightarrow> (string \<times> Entity) list" where
  "build_entityMap es = foldl (\<lambda>m e. map_set (toLowerCase (name e)) e m) [] es"

fun ref_loop :: "(string \<times> Entity) list \<Rightarrow> (string \<times> Entity) list \<Rightarrow> string
                 \<Rightarrow> string option \<times> string" where
  "ref_loop entityMap [] possibleTable = (None, ''id'')"
| "ref_loop entityMap (entry # rest) possibleTable =
     (if toTableName (fst entry) = possibleTable then
        (Some possibleTable,
         (case map_of entityMap (fst entry) of
            Some refEntity \<Rightarrow>
              (case find (has_key PK) (attributes refEntity) of
                 Some refPk \<Rightarrow> toColumnName (attr_name refPk)
               | None \<Rightarrow> ''id'')
          | None \<Rightarrow> ''id''))
      else ref_loop entityMap rest possibleTable)"

definition foreign_key_statement :: "string \<Rightarrow> string \<Rightarrow> string \<Rightarrow> string \<Rightarrow> string" where
  "foreign_key_statement tableName colName refTable refColumn =
     ''ALTER TABLE '' @ quoted tableName @ '' ADD CONSTRAINT ''
     @ quoted (''fk_'' @ tableName @ ''_'' @ colName) @ '' ''
     @ ''FOREIGN KEY ('' @ quoted colName @ '') REFERENCES '' @ quoted refTable
     @ '' ('' @ quoted refColumn @ '') ON DELETE CASCADE;''"

definition fk_for_column :: "(string \<times> Entity) list \<Rightarrow> string \<Rightarrow> Attribute \<Rightarrow> string list" where
  "fk_for_column entityMap tableName fkCol =
     (let colName = toColumnName (attr_name fkCol);
          found = (if endsWith colName ''_id''
                   then ref_loop entityMap entityMap (take (length colName - 3) colName)
                   else (None, ''id''))
      in case fst found of
           Some refTable \<Rightarrow>
             if refTable \<noteq> []
             then [foreign_key_statement tableName colName refTable (snd found)]
             else []
         | None \<Rightarrow> [])"

definition generateForeignKeys :: "DatabaseSchema \<Rightarrow> string list" where
  "generateForeignKeys sch =
     (let entityMap = build_entityMap (entities sch)
      in concat (map (\<lambda>entity.
                   concat (map (fk_for_column entityMap (toTableName (name entity)))
                             (filter (has_key FK) (attributes entity))))
                 (entities sch)))"

section \<open>The query builder\<close>

record QueryConfig =
  tableName :: string
  columns :: "string list"
  primaryKey :: "string option"

record 'v Query =
  sql :: string
  params :: "'v list"

text \<open>A number is an integer or \<open>NaN\<close>, which is what \<open>parseInt\<close> hands to
  \<open>selectAll\<close>; zero and \<open>NaN\<close> are falsy.\<close>

datatype number = Num int | NaN

definition truthy_number :: "number option \<Rightarrow> bool" where
  "truthy_number n = (case n of Some (Num i) \<Rightarrow> i \<noteq> 0 | _ \<Rightarrow> False)"

definition truthy_string :: "string option \<Rightarrow> bool" where
  "truthy_string s = (case s of Some t \<Rightarrow> t \<noteq> [] | None \<Rightarrow> False)"

record SelectOptions =
  limit :: "number option"
  offset :: "number option"
  orderBy :: "string option"
  orderDir :: "string option"

text \<open>What a template literal prints for a string that may be \<open>undefined\<close>.\<close>

definition text_of :: "string option \<Rightarrow> string" where
  "text_of s = (case s of Some t \<Rightarrow> t | None \<Rightarrow> ''undefined'')"

definition buildQueryConfig :: "Entity \<Rightarrow> QueryConfig" where
  "buildQueryConfig entity =
     (let cols = map (\<lambda>a. toColumnName (attr_name a)) (attributes entity)
      in \<lparr>tableName = toTableName (name entity),
          columns = cols,
          primaryKey =
            (case find (has_key PK) (attributes entity) of
               Some pkAttr \<Rightarrow> Some (toColumnName (attr_name pkAttr))
             | None \<Rightarrow> (case cols of [] \<Rightarrow> None | c # _ \<Rightarrow> Some c))\<rparr>)"

definition selectAll :: "QueryConfig \<Rightarrow> SelectOptions option \<Rightarrow> number Query" where
  "selectAll config options =
     (let q0 = \<lparr>sql = ''SELECT * FROM '' @ quoted (tableName config), params = []\<rparr>;
          q1 = (case options of
                  Some opts \<Rightarrow>
                    if truthy_string (orderBy opts)
                    then q0\<lparr>sql := sql q0 @ '' ORDER BY '' @ quoted (text_of (orderBy opts)) @ '' ''
                                    @ (if truthy_string (orderDir opts)
                                       then text_of (orderDir opts) else ''ASC'')\<rparr>
                    else q0
                | None \<Rightarrow> q0);
          q2 = (case options of
                  Some opts \<Rightarrow>
                    (case limit opts of
                       Some l \<Rightarrow>
                         if truthy_number (limit opts)
                         then \<lparr>sql = sql q1 @ '' LIMIT $'' @ show_nat (length (params q1) + 1),
                               params = params q1 @ [l]\<rparr>
                         else q1
                     | None \<Rightarrow> q1)
                | None \<Rightarrow> q1);
          q3 = (case options of
                  Some opts \<Rightarrow>
                    (case offset opts of
                       Some off \<Rightarrow>
                         if truthy_number (offset opts)
                         then \<lparr>sql = sql q2 @ '' OFFSET $'' @ show_nat (length (params q2) + 1),
                               params = params q2 @ [off]\<rparr>
                         else q2
                     | None \<Rightarrow> q2)
                | None \<Rightarrow> q2)
      in q3)"

definition selectById :: "QueryConfig \<Rightarrow> 'v \<Rightarrow> 'v Query" where
  "selectById config ident =
     \<lparr>sql = ''SELECT * FROM '' @ quoted (tableName config) @ '' WHERE ''
            @ quoted (text_of (primaryKey config)) @ '' = $1'',
      params = [ident]\<rparr>"

text \<open>
  The data of \<open>insert\<close> and \<open>update\<close> is an object; it is given as the list of its own
  properties in the order of \<open>Object.keys\<close>.
\<close>

definition placeholders :: "nat \<Rightarrow> string list" where
  "placeholders n = map (\<lambda>i. ''$'' @ show_nat (i + 1)) [0..<n]"

definition insert_query :: "QueryConfig \<Rightarrow> (string \<times> 'v) list \<Rightarrow> 'v Query" where
  "insert_query config data =
     (let kept = filter (\<lambda>kv. fst kv \<in> set (columns config)) data;
          ks = map fst kept;
          vals = map snd kept
      in \<lparr>sql = ''INSERT INTO '' @ quoted (tableName config) @ '' (''
                @ join '', '' (map quoted ks) @ '') VALUES (''
                @ join '', '' (placeholders (length ks)) @ '') RETURNING *'',
          params = vals\<rparr>)"

definition update :: "QueryConfig \<Rightarrow> 'v \<Rightarrow> (string \<times> 'v) list \<Rightarrow> 'v Query" where
  "update config ident data =
     (let kept = filter (\<lambda>kv. fst kv \<in> set (columns config) \<and> Some (fst kv) \<noteq> primaryKey config) data;
          ks = map fst kept;
          vals = map snd kept;
          setClauses = map (\<lambda>(k, i). quoted k @ '' = $'' @ show_nat (i + 1)) (zip ks [0..<length ks])
      in \<lparr>sql = ''UPDATE '' @ quoted (tableName config) @ '' SET '' @ join '', '' setClauses
                @ '' WHERE '' @ quoted (text_of (primaryKey config)) @ '' = $''
                @ show_nat (length ks + 1) @ '' RETURNING *'',
          params = vals @ [ident]\<rparr>)"

definition deleteById :: "QueryConfig \<Rightarrow> 'v \<Rightarrow> 'v Query" where
  "deleteById config ident =
     \<lparr>sql = ''DELETE FROM '' @ quoted (tableName config) @ '' WHERE ''
            @ quoted (text_of (primaryKey config)) @ '' = $1 RETURNING *'',
      params = [ident]\<rparr>"

definition count :: "QueryConfig \<Rightarrow> 'v Query" where
  "count config =
     \<lparr>sql = ''SELECT COUNT(*) as count FROM '' @ quoted (tableName config), params = []\<rparr>"

section \<open>Notions used in the statements\<close>

text \<open>The error list of the parser when the loop is over.\<close>

definition parse_errors :: "string \<Rightarrow> string list" where
  "parse_errors input = errs (run_lines (split_on nl input))"

text \<open>The clauses of \<open>selectAll\<close>, one by one.\<close>

definition order_clause :: "SelectOptions \<Rightarrow> string" where
  "order_clause opts =
     (if truthy_string (orderBy opts)
      then '' ORDER BY '' @ quoted (text_of (orderBy opts)) @ '' ''
           @ (if truthy_string (orderDir opts) then text_of (orderDir opts) else ''ASC'')
      else [])"

definition pushed_param :: "number option \<Rightarrow> number list" where
  "pushed_param n = (case n of Some l \<Rightarrow> if truthy_number n then [l] else [] | None \<Rightarrow> [])"

text \<open>
  What the entity table and the relationships satisfy at every turn of the loop: the
  keys of the table are distinct, every entity stands under its own name, and both
  names of every relationship are keys of the table.
\<close>

definition schema_ok :: "(string \<times> Entity) list \<Rightarrow> Relationship list \<Rightarrow> bool" where
  "schema_ok m rs =
     (distinct (map fst m)
      \<and> list_all (\<lambda>kv. name (snd kv) = fst kv) m
      \<and> list_all (\<lambda>r. firstEntity r \<in> set (map fst m) \<and> secondEntity r \<in> set (map fst m)) rs)"

text \<open>The state in which a line is read as an attribute, and the lines that the loop
  handles before it looks at that state.\<close>

definition in_entity_block :: "parser_state \<Rightarrow> bool" where
  "in_entity_block s = (inERDiagram s \<and> inEntityBlock s \<and> currentEntity s \<noteq> None)"

definition handled_before_attributes :: "string \<Rightarrow> bool" where
  "handled_before_attributes line =
     (test_full EMPTY line \<or> test_prefix COMMENT line \<or> test_full ER_DIAGRAM_START line
      \<or> test_full DIRECTION line \<or> test_full ENTITY_BLOCK_END line)"

text \<open>The message as the specification words it.\<close>

definition claimed_attribute_error :: "nat \<Rightarrow> string \<Rightarrow> string" where
  "claimed_attribute_error n line =
     ''Line '' @ show_nat n @ '': unable to parse attribute: '' @ line"

text \<open>The parts of a \<open>CREATE TABLE\<close> statement: the definition of a column, the
  \<open>PRIMARY KEY\<close> constraint over the given columns, a \<open>UNIQUE\<close> constraint.\<close>

definition column_text :: "Attribute \<Rightarrow> string" where
  "column_text a =
     ''  '' @ quoted (toColumnName (attr_name a)) @ '' ''
     @ (case mapType (attr_type a) of Inr colType \<Rightarrow> to_text colType | Inl e \<Rightarrow> [])
     @ (if has_key PK a then '' NOT NULL'' else [])"

definition primary_key_text :: "Attribute list \<Rightarrow> string" where
  "primary_key_text pks =
     ''  PRIMARY KEY ('' @ join '', '' (map (\<lambda>a. quoted (toColumnName (attr_name a))) pks) @ '')''"

definition unique_text :: "Attribute \<Rightarrow> string" where
  "unique_text a = ''  UNIQUE ('' @ quoted (toColumnName (attr_name a)) @ '')''"

text \<open>The input of \<open>mapType\<close> after lower-casing and trimming; the entry of the table
  for a key, with the generic text type for a key the table does not have; and the
  normalized inputs for which \<open>mapType\<close> reads a member of \<open>Object.prototype\<close> from
  the table: the name of a member, alone, before \<open>[]\<close> or before a parenthesis.\<close>

definition normalized_type :: "string \<Rightarrow> string" where
  "normalized_type t = trim (toLowerCase t)"

definition table_type :: "string \<Rightarrow> string" where
  "table_type key = (case map_of TYPE_MAPPING key of Some pg \<Rightarrow> pg | None \<Rightarrow> ''TEXT'')"

definition reads_inherited_member :: "string \<Rightarrow> bool" where
  "reads_inherited_member n =
     list_ex (\<lambda>k. n = k \<or> n = k @ ''[]'' \<or> startsWith n (k @ ''('')) Object_prototype_keys"

text \<open>Patterns without capture groups.\<close>

primrec no_groups :: "rx \<Rightarrow> bool" where
  "no_groups Eps = True"
| "no_groups (Sat p) = True"
| "no_groups (Seq a b) = (no_groups a \<and> no_groups b)"
| "no_groups (Alt a b) = (no_groups a \<and> no_groups b)"
| "no_groups (Star a) = no_groups a"
| "no_groups (Grp i a) = False"

section \<open>Example inputs\<close>

definition bad_attribute_input :: string where
  "bad_attribute_input =
     ''erDiagram'' @ [nl] @ ''A {'' @ [nl] @ ''??'' @ [nl] @ ''int x PK'' @ [nl] @ ''}''"

definition example_config :: QueryConfig where
  "example_config =
     \<lparr>tableName = ''customer'', columns = [''customer_id'', ''email''],
      primaryKey = Some ''customer_id''\<rparr>"

definition paged_options :: SelectOptions where
  "paged_options =
     \<lparr>limit = Some (Num 10), offset = Some (Num 20), orderBy = Some ''email'', orderDir = None\<rparr>"

definition limit_zero_options :: SelectOptions where
  "limit_zero_options = \<lparr>limit = Some (Num 0), offset = None, orderBy = None, orderDir = None\<rparr>"

definition injected_orderBy :: string where
  "injected_orderBy = ''id'' @ [dq] @ ''; DROP TABLE '' @ quoted ''customer'' @ ''; --''"

definition injected_options :: SelectOptions where
  "injected_options =
     \<lparr>limit = None, offset = None, orderBy = Some injected_orderBy, orderDir = None\<rparr>"

definition order_schema :: DatabaseSchema where
  "order_schema =
     \<lparr>entities =
        [\<lparr>name = ''Customer'', entity_alias = None,
          attributes = [\<lparr>attr_name = ''customer_id'', attr_type = ''int'', keys = [PK],
                         comment = None\<rparr>]\<rparr>,
         \<lparr>name = ''Order'', entity_alias = None,
          attributes = [\<lparr>attr_name = ''customer_id'', attr_type = ''int'', keys = [FK],
                         comment = None\<rparr>]\<rparr>],
      relationships = []\<rparr>"

definition camel_case_schema :: DatabaseSchema where
  "camel_case_schema =
     \<lparr>entities =
        [\<lparr>name = ''OrderItem'', entity_alias = None,
          attributes = [\<lparr>attr_name = ''id'', attr_type = ''int'', keys = [PK],
                         comment = None\<rparr>]\<rparr>,
         \<lparr>name = ''Review'', entity_alias = None,
          attributes = [\<lparr>attr_name = ''order_item_id'', attr_type = ''int'', keys = [FK],
                         comment = None\<rparr>]\<rparr>],
      relationships = []\<rparr>"

definition redefined_input :: string where
  "redefined_input =
     ''erDiagram'' @ [nl] @ ''A {'' @ [nl] @ ''int x'' @ [nl] @ ''}'' @ [nl]
     @ ''A {'' @ [nl] @ ''int y'' @ [nl] @ ''}'' @ [nl] @ ''A ||--o{ B : has''"

definition recovery_input :: string where
  "recovery_input =
     ''erDiagram'' @ [nl] @ ''A {'' @ [nl] @ ''int x PK'' @ [nl] @ ''??'' @ [nl]
     @ ''string y'' @ [nl] @ ''}''"

definition customer_entity :: Entity where
  "customer_entity =
     \<lparr>name = ''CUSTOMER'', entity_alias = None,
      attributes =
        [\<lparr>attr_name = ''customer_id'', attr_type = ''int'', keys = [PK], comment = None\<rparr>,
         \<lparr>attr_name = ''email'', attr_type = ''string'', keys = [UK], comment = None\<rparr>]\<rparr>"

definition keyless_entity :: Entity where
  "keyless_entity =
     \<lparr>name = ''NOTE'', entity_alias = None,
      attributes = [\<lparr>attr_name = ''body'', attr_type = ''text'', keys = [], comment = None\<rparr>]\<rparr>"

definition keyless_sql :: string where
  "keyless_sql =
     ''CREATE TABLE IF NOT EXISTS '' @ quoted ''note'' @ '' ('' @ [nl]
     @ ''  '' @ quoted ''body'' @ '' TEXT'' @ [nl] @ '');''"

section \<open>Numbers in templates\<close>

lemma show_nat_1 [simp]: "show_nat (Suc 0) = ''1''"
  by (simp add: digit_chars_def)

lemma show_nat_2 [simp]: "show_nat (Suc (Suc 0)) = ''2''"
  by (simp add: digit_chars_def)

declare show_nat.simps [simp del]

section \<open>The result of the parser\<close>

text \<open>
  C1.  For every input, \<open>parseERDiagram\<close> returns a result whose \<open>success\<close> flag is true
  exactly when the error list is empty; a schema is returned in either case, and the
  field \<open>errors\<close> is present exactly when the list is not empty (it then is the list).
\<close>

theorem parseERDiagram_success_iff_no_errors:
  "success (parseERDiagram input) = (parse_errors input = [])
   \<and> schema (parseERDiagram input) \<noteq> None
   \<and> errors (parseERDiagram input)
       = (if parse_errors input = [] then None else Some (parse_errors input))
   \<and> success (parseERDiagram input) = (errors (parseERDiagram input) = None)"
  by (simp add: parseERDiagram_def parseLines_def result_of_def parse_errors_def)

theorem parseERDiagram_success_witness:
  "parse_errors bad_attribute_input = [''Line 3: Unable to parse attribute: '' @ quoted ''??'']
   \<and> success (parseERDiagram bad_attribute_input) = False
   \<and> schema (parseERDiagram bad_attribute_input) \<noteq> None
   \<and> errors (parseERDiagram bad_attribute_input)
       = Some [''Line 3: Unable to parse attribute: '' @ quoted ''??'']"
proof -
  have e: "parse_errors bad_attribute_input
             = [''Line 3: Unable to parse attribute: '' @ quoted ''??'']"
    by code_simp
  show ?thesis
    using parseERDiagram_success_iff_no_errors [of bad_attribute_input] by (simp add: e)
qed

section \<open>The query builder\<close>

text \<open>
  C10.  For an entity without attributes, \<open>buildQueryConfig\<close> gives a configuration
  whose primary key is \<open>undefined\<close>, and \<open>selectById\<close>, \<open>update\<close> and \<open>deleteById\<close>
  return a statement whose \<open>WHERE\<close> clause names the column \<open>"undefined"\<close>; none of
  them fails.
\<close>

theorem buildQueryConfig_no_attributes:
  assumes "attributes entity = []"
  shows "primaryKey (buildQueryConfig entity) = None
    \<and> selectById (buildQueryConfig entity) i =
        \<lparr>sql = ''SELECT * FROM '' @ quoted (toTableName (name entity))
               @ '' WHERE '' @ quoted ''undefined'' @ '' = $1'', params = [i]\<rparr>
    \<and> update (buildQueryConfig entity) i data =
        \<lparr>sql = ''UPDATE '' @ quoted (toTableName (name entity))
               @ '' SET  WHERE '' @ quoted ''undefined'' @ '' = $1 RETURNING *'', params = [i]\<rparr>
    \<and> deleteById (buildQueryConfig entity) i =
        \<lparr>sql = ''DELETE FROM '' @ quoted (toTableName (name entity))
               @ '' WHERE '' @ quoted ''undefined'' @ '' = $1 RETURNING *'', params = [i]\<rparr>"
  using assms
  by (simp add: buildQueryConfig_def selectById_def update_def deleteById_def text_of_def)

theorem buildQueryConfig_no_attributes_witness:
  "attributes (new_entity ''ORDER'' None) = []
   \<and> primaryKey (buildQueryConfig (new_entity ''ORDER'' None)) = None
   \<and> sql (selectById (buildQueryConfig (new_entity ''ORDER'' None)) (7::int))
       = ''SELECT * FROM '' @ quoted ''order'' @ '' WHERE '' @ quoted ''undefined'' @ '' = $1''"
proof -
  have a: "attributes (new_entity ''ORDER'' None) = []"
    by (simp add: new_entity_def)
  have t: "toTableName (name (new_entity ''ORDER'' None)) = ''order''"
    by code_simp
  show ?thesis
    using buildQueryConfig_no_attributes [OF a, of "7::int" "[]"] a by (simp add: t)
qed

text \<open>
  C7, as the code has it.  \<open>selectAll\<close> returns \<open>SELECT * FROM\<close> the quoted table name,
  followed by an \<open>ORDER BY\<close> clause exactly when \<open>orderBy\<close> is truthy (a string that is
  not empty; the direction is \<open>orderDir\<close> when that is truthy and \<open>ASC\<close> otherwise), by
  \<open>LIMIT\<close> exactly when \<open>limit\<close> is truthy (a number other than zero and \<open>NaN\<close>) and
  by \<open>OFFSET\<close> exactly when \<open>offset\<close> is truthy, in this order; each of the two pushes
  its value on \<open>params\<close>, and the placeholders count \<open>$1\<close>, \<open>$2\<close> in the order of the
  clauses.
\<close>

theorem selectAll_clauses:
  "selectAll config None = \<lparr>sql = ''SELECT * FROM '' @ quoted (tableName config), params = []\<rparr>
   \<and> selectAll config (Some opts) =
       \<lparr>sql = ''SELECT * FROM '' @ quoted (tableName config)
              @ order_clause opts
              @ (if truthy_number (limit opts) then '' LIMIT $1'' else [])
              @ (if truthy_number (offset opts)
                 then (if truthy_number (limit opts) then '' OFFSET $2'' else '' OFFSET $1'')
                 else []),
        params = pushed_param (limit opts) @ pushed_param (offset opts)\<rparr>"
  by (auto simp: selectAll_def Let_def order_clause_def pushed_param_def truthy_number_def
      split: option.splits number.splits)

theorem selectAll_clauses_witness:
  "selectAll example_config (Some paged_options)
     = \<lparr>sql = ''SELECT * FROM '' @ quoted ''customer'' @ '' ORDER BY '' @ quoted ''email''
              @ '' ASC LIMIT $1 OFFSET $2'',
        params = [Num 10, Num 20]\<rparr>"
  using selectAll_clauses [of example_config paged_options]
  by (simp add: example_config_def paged_options_def order_clause_def pushed_param_def
      truthy_number_def truthy_string_def text_of_def)

text \<open>A limit of zero is present and gives no \<open>LIMIT\<close> clause and no parameter.\<close>

theorem selectAll_limit_zero:
  "limit limit_zero_options = Some (Num 0)
   \<and> selectAll example_config (Some limit_zero_options)
       = \<lparr>sql = ''SELECT * FROM '' @ quoted ''customer'', params = []\<rparr>"
  by (simp add: selectAll_def limit_zero_options_def example_config_def truthy_number_def
      truthy_string_def)

text \<open>The text of the other statements does not depend on the values the caller
  supplies: not on the identifier, and on the data only through the names of its
  properties, of which the columns of the entity are kept.\<close>

lemma selectById_sql_independent: "sql (selectById config i) = sql (selectById config j)"
  by (simp add: selectById_def)

lemma deleteById_sql_independent: "sql (deleteById config i) = sql (deleteById config j)"
  by (simp add: deleteById_def)

lemma kept_keys: "map fst (filter (\<lambda>kv. P (fst kv)) d) = filter P (map fst d)"
  by (induction d) auto

lemma insert_sql_depends_on_keys:
  assumes "map fst d1 = map fst d2"
  shows "sql (insert_query config d1) = sql (insert_query config d2)"
proof -
  let ?P = "\<lambda>k. k \<in> set (columns config)"
  have "map fst (filter (\<lambda>kv. ?P (fst kv)) d1) = map fst (filter (\<lambda>kv. ?P (fst kv)) d2)"
    using assms kept_keys [of ?P d1] kept_keys [of ?P d2] by simp
  then show ?thesis by (simp only: insert_query_def Let_def Query.select_convs)
qed

lemma update_sql_depends_on_keys:
  assumes "map fst d1 = map fst d2"
  shows "sql (update config i d1) = sql (update config j d2)"
proof -
  let ?P = "\<lambda>k. k \<in> set (columns config) \<and> Some k \<noteq> primaryKey config"
  have "map fst (filter (\<lambda>kv. ?P (fst kv)) d1) = map fst (filter (\<lambda>kv. ?P (fst kv)) d2)"
    using assms kept_keys [of ?P d1] kept_keys [of ?P d2] by simp
  then show ?thesis by (simp only: update_def Let_def Query.select_convs)
qed

text \<open>
  C4.  \<open>selectAll\<close> writes the caller's \<open>orderBy\<close> into the text of the statement: for
  the options whose \<open>orderBy\<close> is \<open>id"; DROP TABLE "customer"; --\<close> the statement
  contains that text between the quotes of \<open>ORDER BY\<close>, and \<open>params\<close> is empty.
\<close>

theorem selectAll_orderBy_in_sql:
  "selectAll example_config (Some injected_options)
     = \<lparr>sql = ''SELECT * FROM '' @ quoted ''customer'' @ '' ORDER BY ''
              @ quoted injected_orderBy @ '' ASC'',
        params = []\<rparr>"
  by (simp add: selectAll_def injected_options_def example_config_def truthy_string_def
      text_of_def injected_orderBy_def)

section \<open>Foreign keys\<close>

text \<open>The example of the specification: \<open>customer_id FK\<close> on \<open>Order\<close>, with an entity
  \<open>Customer\<close>, references the table \<open>customer\<close> on its primary key.\<close>

lemma generateForeignKeys_example:
  "generateForeignKeys order_schema
     = [foreign_key_statement ''order'' ''customer_id'' ''customer'' ''customer_id'']"
  by code_simp

text \<open>
  C2.  For the schema of the entities \<open>OrderItem\<close> (with the primary key \<open>id\<close>) and
  \<open>Review\<close> (with \<open>order_item_id FK\<close>), whose tables are \<open>order_item\<close> and \<open>review\<close>,
  \<open>generateForeignKeys\<close> emits no statement: the lookup normalizes the lower-cased
  entity name \<open>orderitem\<close>, which is not the table name \<open>order_item\<close>.
\<close>

theorem generateForeignKeys_camel_case:
  "generateForeignKeys camel_case_schema = []
   \<and> map (\<lambda>e. toTableName (name e)) (entities camel_case_schema) = [''order_item'', ''review'']
   \<and> map fst (build_entityMap (entities camel_case_schema)) = [''orderitem'', ''review'']"
  by code_simp

section \<open>Cardinalities\<close>

text \<open>The tokens of the alphabet, in both orientations, and the removal of whitespace.\<close>

lemma parseCardinality_alphabet:
  "parseCardinality ''|o'' = Val ZERO_OR_ONE"
  "parseCardinality ''o|'' = Val ZERO_OR_ONE"
  "parseCardinality ''||'' = Val EXACTLY_ONE"
  "parseCardinality ''}o'' = Val ZERO_OR_MORE"
  "parseCardinality ''o{'' = Val ZERO_OR_MORE"
  "parseCardinality ''{o'' = Val ZERO_OR_MORE"
  "parseCardinality ''}|'' = Val ONE_OR_MORE"
  "parseCardinality ''|{'' = Val ONE_OR_MORE"
  "parseCardinality ''{|'' = Val ONE_OR_MORE"
  by (simp_all add: parseCardinality_def is_space_def)

lemma parseCardinality_strips_whitespace:
  "parseCardinality symbol = parseCardinality (filter (\<lambda>c. \<not> is_space c) symbol)"
  by (simp add: parseCardinality_def)

text \<open>A token outside the alphabet that is not the name of a member of
  \<open>Object.prototype\<close> falls back to \<open>EXACTLY_ONE\<close>.\<close>

lemma parseCardinality_fallback:
  assumes "filter (\<lambda>c. \<not> is_space c) symbol
             \<notin> set [''|o'', ''o|'', ''||'', ''}o'', ''o{'', ''{o'', ''}|'', ''|{'', ''{|'']"
    and "filter (\<lambda>c. \<not> is_space c) symbol \<notin> set Object_prototype_keys"
  shows "parseCardinality symbol = Val EXACTLY_ONE"
  using assms
  by (auto simp: parseCardinality_def Let_def obj_get_def CARDINALITY_SYMBOLS_def)

text \<open>
  C8.  The token \<open>constructor\<close> lies outside the alphabet, and \<open>parseCardinality\<close>
  does not return \<open>EXACTLY_ONE\<close> for it: the read \<open>CARDINALITY_SYMBOLS[normalized]\<close>
  finds the member \<open>constructor\<close> that the table inherits from \<open>Object.prototype\<close>,
  which is truthy, and returns it.
\<close>

theorem parseCardinality_inherited:
  "parseCardinality ''constructor'' = Inherited ''constructor''"
  by code_simp

section \<open>The invariant of the parser\<close>

lemma map_fst_map_set:
  "map fst (map_set k v m) = (if k \<in> set (map fst m) then map fst m else map fst m @ [k])"
  by (induction m) auto

lemma keys_map_set: "fst ` set (map_set k v m) = insert k (fst ` set m)"
  by (induction m) auto

lemma set_map_set: "set (map_set k v m) \<subseteq> insert (k, v) (set m)"
  by (induction m) auto

lemma schema_ok_map_set:
  assumes "schema_ok m rs" and "name e = k"
  shows "schema_ok (map_set k e m) rs"
proof -
  have "list_all (\<lambda>kv. name (snd kv) = fst kv) (map_set k e m)"
    using assms set_map_set [of k e m] by (auto simp: schema_ok_def list_all_iff)
  then show ?thesis
    using assms by (auto simp: schema_ok_def map_fst_map_set keys_map_set list_all_iff)
qed

lemma schema_ok_ensure:
  assumes "schema_ok m rs"
  shows "schema_ok (ensure_entity n m) rs" and "n \<in> set (map fst (ensure_entity n m))"
    and "set (map fst m) \<subseteq> set (map fst (ensure_entity n m))"
  using assms schema_ok_map_set [of m rs "new_entity n None" n]
  by (auto simp: ensure_entity_def map_has_def new_entity_def keys_map_set)

lemma schema_ok_relationship:
  assumes "schema_ok m rs"
  shows "schema_ok (ensure_entity (secondEntity r) (ensure_entity (firstEntity r) m)) (rs @ [r])"
proof -
  let ?m1 = "ensure_entity (firstEntity r) m"
  let ?m2 = "ensure_entity (secondEntity r) ?m1"
  have ok1: "schema_ok ?m1 rs" using assms by (rule schema_ok_ensure)
  have ok2: "schema_ok ?m2 rs" using ok1 by (rule schema_ok_ensure)
  have f: "firstEntity r \<in> set (map fst ?m2)"
    using schema_ok_ensure(2) [OF assms, of "firstEntity r"]
      schema_ok_ensure(3) [OF ok1, of "secondEntity r"]
    by blast
  have s: "secondEntity r \<in> set (map fst ?m2)"
    using ok1 by (rule schema_ok_ensure)
  show ?thesis using ok2 f s by (simp add: schema_ok_def)
qed

lemma step_schema_ok:
  assumes "schema_ok (entity_map s) (rels s)"
  shows "schema_ok (entity_map (step s l)) (rels (step s l))"
  using assms
  by (auto simp: step_def Let_def new_entity_def
      intro!: schema_ok_map_set schema_ok_relationship
      split: option.splits)

lemma foldl_step_schema_ok:
  assumes "schema_ok (entity_map s) (rels s)"
  shows "schema_ok (entity_map (foldl step s ls)) (rels (foldl step s ls))"
  using assms by (induction ls arbitrary: s) (simp_all add: step_schema_ok)

lemma run_lines_schema_ok: "schema_ok (entity_map (run_lines ls)) (rels (run_lines ls))"
proof -
  have "schema_ok (entity_map init_state) (rels init_state)"
    by (simp add: init_state_def schema_ok_def)
  then have "schema_ok (entity_map (foldl step init_state ls)) (rels (foldl step init_state ls))"
    by (rule foldl_step_schema_ok)
  then show ?thesis
    by (auto simp: run_lines_def close_open_entity_def intro: schema_ok_map_set
        split: option.splits)
qed

text \<open>The two checks of the validator on such a schema.\<close>

lemma indexOf_nth:
  assumes "distinct xs" and "i < length xs"
  shows "indexOf xs (xs ! i) = int i"
  using assms
proof (induction xs arbitrary: i)
  case Nil
  then show ?case by simp
next
  case (Cons y ys)
  show ?case
  proof (cases i)
    case 0
    then show ?thesis by simp
  next
    case (Suc j)
    then have "ys ! j \<in> set ys" and "indexOf ys (ys ! j) = int j"
      using Cons by auto
    then show ?thesis using Cons.prems Suc by (auto simp: Let_def)
  qed
qed

lemma duplicates_distinct:
  assumes "distinct xs"
  shows "duplicates xs = []"
proof -
  have "\<forall>p \<in> set (zip xs [0..<length xs]). indexOf xs (fst p) = int (snd p)"
  proof
    fix p assume "p \<in> set (zip xs [0..<length xs])"
    then obtain i where "i < length xs" and "p = (xs ! i, i)"
      by (auto simp: set_zip)
    then show "indexOf xs (fst p) = int (snd p)"
      using assms by (simp add: indexOf_nth)
  qed
  then show ?thesis
    by (auto simp: duplicates_def filter_empty_conv)
qed

lemma dangling_errors_none:
  assumes "list_all (\<lambda>r. firstEntity r \<in> set ns \<and> secondEntity r \<in> set ns) rs"
  shows "dangling_errors ns rs = []"
  using assms by (induction rs) (simp_all add: dangling_errors_def)

text \<open>
  C9.  For every input, the schema of \<open>parseERDiagram\<close> has no two entities of the same
  name, and both names of each of its relationships are names of its entities.  The
  validator's checks for duplicate names and for dangling references therefore add
  nothing: the errors of \<open>validateERDiagram\<close> are the errors of the parser and, when
  the text lacks the header keyword, the one message about the header.
\<close>

theorem parser_schema_invariant:
  "(case schema (parseERDiagram input) of
      None \<Rightarrow> False
    | Some sch \<Rightarrow>
        distinct (map name (entities sch))
        \<and> list_all (\<lambda>r. firstEntity r \<in> set (map name (entities sch))
                          \<and> secondEntity r \<in> set (map name (entities sch)))
             (relationships sch)
        \<and> duplicate_errors (map name (entities sch)) = []
        \<and> dangling_errors (map name (entities sch)) (relationships sch) = [])
   \<and> validation_errors (validateERDiagram input) = parse_errors input @ header_errors input"
proof -
  let ?s = "run_lines (split_on nl input)"
  have ok: "schema_ok (entity_map ?s) (rels ?s)"
    by (rule run_lines_schema_ok)
  have names: "map name (map_values (entity_map ?s)) = map fst (entity_map ?s)"
    using ok by (auto simp: schema_ok_def map_values_def list_all_iff)
  have d: "distinct (map fst (entity_map ?s))"
    using ok by (simp add: schema_ok_def)
  have r: "list_all (\<lambda>r. firstEntity r \<in> set (map fst (entity_map ?s))
                          \<and> secondEntity r \<in> set (map fst (entity_map ?s))) (rels ?s)"
    using ok by (simp add: schema_ok_def)
  have dup: "duplicate_errors (map fst (entity_map ?s)) = []"
    using d by (simp add: duplicate_errors_def duplicates_distinct)
  have dang: "dangling_errors (map fst (entity_map ?s)) (rels ?s) = []"
    using r by (rule dangling_errors_none)
  show ?thesis
    using d r dup dang
    by (simp add: parseERDiagram_def parseLines_def result_of_def names validateERDiagram_def
        Let_def parse_errors_def)
qed

text \<open>An input that declares \<open>A\<close> twice and mentions an undeclared \<open>B\<close> in a
  relationship: one entity \<open>A\<close>, one entity \<open>B\<close>, and a clean validation.\<close>

theorem parser_schema_invariant_witness:
  "map_option (\<lambda>sch. (map name (entities sch),
                       map (\<lambda>r. (firstEntity r, secondEntity r)) (relationships sch)))
     (schema (parseERDiagram redefined_input))
     = Some ([''A'', ''B''], [(''A'', ''B'')])
   \<and> validation_errors (validateERDiagram redefined_input) = []"
proof -
  have e: "map_option (\<lambda>sch. (map name (entities sch),
                       map (\<lambda>r. (firstEntity r, secondEntity r)) (relationships sch)))
     (schema (parseERDiagram redefined_input))
     = Some ([''A'', ''B''], [(''A'', ''B'')])"
    by code_simp
  have p: "parse_errors redefined_input = []" by code_simp
  have h: "header_errors redefined_input = []" by code_simp
  show ?thesis
    using parser_schema_invariant [of redefined_input] e by (simp add: p h)
qed

section \<open>Recovery from a bad attribute line\<close>

lemma step_bad_attribute:
  assumes "in_entity_block s" and "\<not> handled_before_attributes (trim rawLine)"
    and "match_full ATTRIBUTE (trim rawLine) = None"
  shows "step s rawLine =
           s\<lparr>lineNumber := lineNumber s + 1,
             errs := errs s @ [attribute_error (lineNumber s + 1) (trim rawLine)]\<rparr>"
  using assms
  by (auto simp: step_def Let_def in_entity_block_def handled_before_attributes_def)

lemma test_full_EMPTY_Nil: "test_full EMPTY []"
  by code_simp

lemma trim_Nil: "trim [] = []"
  by (simp add: trim_def)

lemma step_blank: "step s [] = s\<lparr>lineNumber := lineNumber s + 1\<rparr>"
  by (simp add: step_def Let_def trim_Nil test_full_EMPTY_Nil)

lemma lineNumber_step: "lineNumber (step s l) = lineNumber s + 1"
  by (simp add: step_def Let_def split: option.splits)

lemma lineNumber_foldl_step: "lineNumber (foldl step s ls) = lineNumber s + length ls"
  by (induction ls arbitrary: s) (simp_all add: lineNumber_step)

text \<open>The loop only appends to the error list and never reads it.\<close>

lemma step_errs:
  "step s l = (step (s\<lparr>errs := []\<rparr>) l)\<lparr>errs := errs s @ errs (step (s\<lparr>errs := []\<rparr>) l)\<rparr>"
  by (simp add: step_def Let_def split: option.splits)

lemma foldl_step_errs:
  "foldl step s ls
     = (foldl step (s\<lparr>errs := []\<rparr>) ls)\<lparr>errs := errs s @ errs (foldl step (s\<lparr>errs := []\<rparr>) ls)\<rparr>"
proof (induction ls arbitrary: s)
  case Nil
  show ?case by simp
next
  case (Cons l ls)
  let ?s0 = "s\<lparr>errs := []\<rparr>"
  let ?t = "(step ?s0 l)\<lparr>errs := []\<rparr>"
  have a: "(step s l)\<lparr>errs := []\<rparr> = ?t" and b: "errs (step s l) = errs s @ errs (step ?s0 l)"
    using arg_cong [OF step_errs [of s l], of "\<lambda>t. t\<lparr>errs := []\<rparr>"]
      arg_cong [OF step_errs [of s l], of errs] by simp_all
  have "foldl step s (l # ls) = foldl step (step s l) ls" by simp
  also have "\<dots> = (foldl step ?t ls)\<lparr>errs := errs (step s l) @ errs (foldl step ?t ls)\<rparr>"
    using Cons.IH [of "step s l"] by (simp add: a)
  finally have lhs: "foldl step s (l # ls)
      = (foldl step ?t ls)\<lparr>errs := errs s @ errs (step ?s0 l) @ errs (foldl step ?t ls)\<rparr>"
    by (simp add: b)
  have "foldl step ?s0 (l # ls) = foldl step (step ?s0 l) ls" by simp
  also have "\<dots> = (foldl step ?t ls)\<lparr>errs := errs (step ?s0 l) @ errs (foldl step ?t ls)\<rparr>"
    using Cons.IH [of "step ?s0 l"] by simp
  finally have rhs: "foldl step ?s0 (l # ls)
      = (foldl step ?t ls)\<lparr>errs := errs (step ?s0 l) @ errs (foldl step ?t ls)\<rparr>" .
  show ?case by (simp only: lhs rhs) simp
qed

lemma close_open_entity_errs:
  "close_open_entity (s\<lparr>errs := e\<rparr>) = (close_open_entity s)\<lparr>errs := e\<rparr>"
  by (simp add: close_open_entity_def split: option.splits)

text \<open>
  C5, as the code has it.  Let a line of the input be read while an entity block is
  open, let it be none of the lines the loop handles first (blank, comment, header,
  direction, closing brace), and let it fail to match the attribute pattern.  Then the
  parser appends exactly the message \<open>Line <n>: Unable to parse attribute: "<text>"\<close>
  (with the number of the line, counted from 1, and the trimmed line between double
  quotes) and goes on: the other errors and the schema are those of the input with
  this line left blank, so the attributes before and after it are all collected; the
  schema is returned and \<open>success\<close> is false.
\<close>

theorem bad_attribute_line_recorded:
  assumes "split_on nl input = pre @ rawLine # post"
    and "in_entity_block (foldl step init_state pre)"
    and "\<not> handled_before_attributes (trim rawLine)"
    and "match_full ATTRIBUTE (trim rawLine) = None"
  shows "(\<exists>after.
            parse_errors input
              = errs (foldl step init_state pre)
                @ [attribute_error (length pre + 1) (trim rawLine)] @ after
            \<and> errs (run_lines (pre @ [] # post)) = errs (foldl step init_state pre) @ after)
         \<and> schema (parseERDiagram input) = schema (parseLines (pre @ [] # post))
         \<and> schema (parseERDiagram input) \<noteq> None
         \<and> success (parseERDiagram input) = False"
proof -
  let ?s = "foldl step init_state pre"
  let ?msg = "attribute_error (length pre + 1) (trim rawLine)"
  let ?s2 = "?s\<lparr>lineNumber := lineNumber ?s + 1\<rparr>"
  let ?s1 = "?s2\<lparr>errs := errs ?s @ [?msg]\<rparr>"
  let ?X = "foldl step (?s2\<lparr>errs := []\<rparr>) post"
  have n: "lineNumber ?s = length pre"
    by (simp add: lineNumber_foldl_step init_state_def)
  have bad: "step ?s rawLine = ?s1"
    using step_bad_attribute [OF assms(2-4)] by (simp add: n)
  have blank: "step ?s [] = ?s2"
    by (rule step_blank)
  have f1: "foldl step init_state (pre @ rawLine # post)
              = ?X\<lparr>errs := (errs ?s @ [?msg]) @ errs ?X\<rparr>"
    using foldl_step_errs [of ?s1 post] by (simp add: bad)
  have f2: "foldl step init_state (pre @ [] # post) = ?X\<lparr>errs := errs ?s @ errs ?X\<rparr>"
    using foldl_step_errs [of ?s2 post] by (simp add: blank)
  have r1: "run_lines (pre @ rawLine # post)
              = (close_open_entity ?X)\<lparr>errs := errs ?s @ [?msg] @ errs ?X\<rparr>"
    by (simp only: run_lines_def f1 close_open_entity_errs append_assoc append.simps)
  have r2: "run_lines (pre @ [] # post) = (close_open_entity ?X)\<lparr>errs := errs ?s @ errs ?X\<rparr>"
    by (simp only: run_lines_def f2 close_open_entity_errs)
  have e1: "parse_errors input = errs ?s @ [?msg] @ errs ?X"
    by (simp add: parse_errors_def assms(1) r1)
  have e2: "errs (run_lines (pre @ [] # post)) = errs ?s @ errs ?X"
    by (simp add: r2)
  have sch: "schema (parseERDiagram input) = schema (parseLines (pre @ [] # post))"
    by (simp add: parseERDiagram_def parseLines_def result_of_def assms(1) r1 r2)
  have some: "schema (parseERDiagram input) \<noteq> None"
    by (simp add: parseERDiagram_def parseLines_def result_of_def)
  have suc: "success (parseERDiagram input) = False"
    using e1 by (simp add: parseERDiagram_def parseLines_def result_of_def parse_errors_def)
  show ?thesis using e1 e2 sch some suc by blast
qed

text \<open>The bad line is the fourth; the attributes \<open>x\<close> before it and \<open>y\<close> after it are
  both in the schema.\<close>

theorem bad_attribute_line_recorded_witness:
  "parse_errors recovery_input = [''Line 4: Unable to parse attribute: '' @ quoted ''??'']
   \<and> schema (parseERDiagram recovery_input)
       = schema (parseLines [''erDiagram'', ''A {'', ''int x PK'', [], ''string y'', ''}''])
   \<and> map_option (\<lambda>sch. map (\<lambda>e. (name e, map attr_name (attributes e))) (entities sch))
        (schema (parseERDiagram recovery_input)) = Some [(''A'', [''x'', ''y''])]
   \<and> success (parseERDiagram recovery_input) = False"
proof -
  have sp: "split_on nl recovery_input
              = [''erDiagram'', ''A {'', ''int x PK''] @ ''??'' # [''string y'', ''}'']"
    by code_simp
  have blk: "in_entity_block (foldl step init_state [''erDiagram'', ''A {'', ''int x PK''])"
    by code_simp
  have nh: "\<not> handled_before_attributes (trim ''??'')"
    by code_simp
  have nm: "match_full ATTRIBUTE (trim ''??'') = None"
    by code_simp
  have pe: "parse_errors recovery_input
              = [''Line 4: Unable to parse attribute: '' @ quoted ''??'']"
    by code_simp
  have at: "map_option (\<lambda>sch. map (\<lambda>e. (name e, map attr_name (attributes e))) (entities sch))
        (schema (parseERDiagram recovery_input)) = Some [(''A'', [''x'', ''y''])]"
    by code_simp
  show ?thesis
    using bad_attribute_line_recorded [OF sp blk nh nm] pe at by simp
qed

text \<open>The message starts its text with a capital and puts the line between double
  quotes; it is not the string that the specification gives.\<close>

theorem attribute_error_text:
  "errors (parseERDiagram bad_attribute_input)
     = Some [''Line 3: Unable to parse attribute: '' @ quoted ''??'']
   \<and> errors (parseERDiagram bad_attribute_input) \<noteq> Some [claimed_attribute_error 3 ''??'']"
  by code_simp

section \<open>The statement that creates a table\<close>

lemma column_loop_map:
  assumes "list_all (\<lambda>a. \<not> isl (mapType (attr_type a))) attrs"
  shows "column_loop acc attrs = Inr (acc @ map column_text attrs)"
  using assms
proof (induction attrs arbitrary: acc)
  case Nil
  show ?case by simp
next
  case (Cons a attrs)
  from Cons.prems obtain colType where m: "mapType (attr_type a) = Inr colType"
    by (cases "mapType (attr_type a)") auto
  have rest: "list_all (\<lambda>a. \<not> isl (mapType (attr_type a))) attrs"
    using Cons.prems by simp
  show ?case
    by (simp add: m Let_def Cons.IH [OF rest] column_text_def)
qed

lemma foldl_snoc_map: "foldl (\<lambda>acc x. acc @ [f x]) acc xs = acc @ map f xs"
  by (induction xs arbitrary: acc) simp_all

lemma unique_constraints_map:
  "unique_constraints attrs = map unique_text (filter (\<lambda>a. has_key UK a \<and> \<not> has_key PK a) attrs)"
  by (simp add: unique_constraints_def foldl_snoc_map unique_text_def)

text \<open>
  C3, as the code has it.  For every entity none of whose attribute types makes
  \<open>mapType\<close> throw, \<open>generateCreateTable\<close> emits \<open>CREATE TABLE IF NOT EXISTS\<close> with one
  column definition per attribute, in attribute order (the quoted normalized column
  name, the mapped type, and \<open>NOT NULL\<close> exactly when the keys of the attribute contain
  \<open>PK\<close>); then, exactly when some attribute carries \<open>PK\<close>, one \<open>PRIMARY KEY\<close>
  constraint over all such columns in attribute order; then one \<open>UNIQUE\<close> constraint
  for each attribute that carries \<open>UK\<close> and not \<open>PK\<close>.
\<close>

theorem generateCreateTable_statement:
  assumes "list_all (\<lambda>a. \<not> isl (mapType (attr_type a))) (attributes entity)"
  shows "generateCreateTable entity =
           Inr (''CREATE TABLE IF NOT EXISTS '' @ quoted (toTableName (name entity)) @ '' ('' @ [nl]
                @ join ('','' @ [nl])
                    (map column_text (attributes entity)
                     @ (if filter (has_key PK) (attributes entity) = [] then []
                        else [primary_key_text (filter (has_key PK) (attributes entity))])
                     @ map unique_text
                         (filter (\<lambda>a. has_key UK a \<and> \<not> has_key PK a) (attributes entity)))
                @ [nl] @ '');'')"
  by (simp add: generateCreateTable_def column_loop_map [OF assms] unique_constraints_map
      primary_key_constraint_def primary_key_text_def Let_def)

text \<open>The entity \<open>CUSTOMER\<close> of the specification: a \<open>PRIMARY KEY\<close> on \<open>customer_id\<close>
  and a \<open>UNIQUE\<close> constraint on \<open>email\<close>.\<close>

theorem generateCreateTable_statement_witness:
  "generateCreateTable customer_entity =
     Inr (''CREATE TABLE IF NOT EXISTS '' @ quoted ''customer'' @ '' ('' @ [nl]
          @ ''  '' @ quoted ''customer_id'' @ '' INTEGER NOT NULL,'' @ [nl]
          @ ''  '' @ quoted ''email'' @ '' VARCHAR(255),'' @ [nl]
          @ ''  PRIMARY KEY ('' @ quoted ''customer_id'' @ ''),'' @ [nl]
          @ ''  UNIQUE ('' @ quoted ''email'' @ '')'' @ [nl] @ '');'')"
proof -
  have h: "list_all (\<lambda>a. \<not> isl (mapType (attr_type a))) (attributes customer_entity)"
    by code_simp
  have v: "(''CREATE TABLE IF NOT EXISTS '' @ quoted (toTableName (name customer_entity)) @ '' ('' @ [nl]
                @ join ('','' @ [nl])
                    (map column_text (attributes customer_entity)
                     @ (if filter (has_key PK) (attributes customer_entity) = [] then []
                        else [primary_key_text (filter (has_key PK) (attributes customer_entity))])
                     @ map unique_text
                         (filter (\<lambda>a. has_key UK a \<and> \<not> has_key PK a) (attributes customer_entity)))
                @ [nl] @ '');'')
          = (''CREATE TABLE IF NOT EXISTS '' @ quoted ''customer'' @ '' ('' @ [nl]
          @ ''  '' @ quoted ''customer_id'' @ '' INTEGER NOT NULL,'' @ [nl]
          @ ''  '' @ quoted ''email'' @ '' VARCHAR(255),'' @ [nl]
          @ ''  PRIMARY KEY ('' @ quoted ''customer_id'' @ ''),'' @ [nl]
          @ ''  UNIQUE ('' @ quoted ''email'' @ '')'' @ [nl] @ '');'')"
    by code_simp
  show ?thesis
    using generateCreateTable_statement [OF h] by (simp only: v)
qed

text \<open>An entity without a \<open>PK\<close> attribute gets no \<open>PRIMARY KEY\<close> constraint.\<close>

theorem generateCreateTable_no_primary_key:
  "generateCreateTable keyless_entity = Inr keyless_sql
   \<and> \<not> includes_str keyless_sql ''PRIMARY KEY''"
  by code_simp

text \<open>An attribute type that reads an inherited member in the branch for
  parameterized types makes the generator throw.\<close>

lemma generateCreateTable_throws:
  "generateCreateTable
     \<lparr>name = ''T'', entity_alias = None,
      attributes = [\<lparr>attr_name = ''x'', attr_type = ''constructor(1)'', keys = [],
                     comment = None\<rparr>]\<rparr>
     = Inl TypeError"
  by code_simp

section \<open>What a match says about its input\<close>

text \<open>Every way of matching reads a prefix of the input, and a pattern without groups
  leaves the capture groups as they are.\<close>

lemma star_iter_suffix:
  assumes "\<And>st st'. st' \<in> set (f st) \<Longrightarrow> \<exists>pre. fst st = pre @ fst st'"
  shows "st' \<in> set (star_iter f n st) \<Longrightarrow> \<exists>pre. fst st = pre @ fst st'"
proof (induction n arbitrary: st st')
  case 0
  then show ?case by simp
next
  case (Suc n)
  from Suc.prems consider "st' = st"
    | mid where "mid \<in> set (f st)" and "st' \<in> set (star_iter f n mid)"
    by auto
  then show ?case
  proof cases
    case 1
    then show ?thesis by simp
  next
    case 2
    from assms [OF 2(1)] obtain p1 where "fst st = p1 @ fst mid" by blast
    moreover from Suc.IH [OF 2(2)] obtain p2 where "fst mid = p2 @ fst st'" by blast
    ultimately have "fst st = (p1 @ p2) @ fst st'" by simp
    then show ?thesis by blast
  qed
qed

lemma run_suffix: "st' \<in> set (run r st) \<Longrightarrow> \<exists>pre. fst st = pre @ fst st'"
proof (induction r arbitrary: st st')
  case Eps
  then show ?case by simp
next
  case (Sat p)
  then show ?case by (cases "fst st") (auto split: if_splits)
next
  case (Seq a b)
  from Seq.prems obtain mid where m: "mid \<in> set (run a st)" "st' \<in> set (run b mid)"
    by auto
  from Seq.IH(1) [OF m(1)] obtain p1 where "fst st = p1 @ fst mid" by blast
  moreover from Seq.IH(2) [OF m(2)] obtain p2 where "fst mid = p2 @ fst st'" by blast
  ultimately have "fst st = (p1 @ p2) @ fst st'" by simp
  then show ?case by blast
next
  case (Alt a b)
  from Alt.prems have "st' \<in> set (run a st) \<or> st' \<in> set (run b st)" by simp
  then show ?case using Alt.IH by blast
next
  case (Star a)
  then show ?case using star_iter_suffix [of "run a"] by simp
next
  case (Grp i a)
  from Grp.prems obtain x where "x \<in> set (run a st)" and "fst st' = fst x"
    by auto
  then show ?case using Grp.IH [of x st] by simp
qed

lemma star_iter_caps:
  assumes "\<And>st st'. st' \<in> set (f st) \<Longrightarrow> snd st' = snd st"
  shows "st' \<in> set (star_iter f n st) \<Longrightarrow> snd st' = snd st"
proof (induction n arbitrary: st st')
  case 0
  then show ?case by simp
next
  case (Suc n)
  from Suc.prems consider "st' = st"
    | mid where "mid \<in> set (f st)" and "st' \<in> set (star_iter f n mid)"
    by auto
  then show ?case
  proof cases
    case 1
    then show ?thesis by simp
  next
    case 2
    have "snd st' = snd mid" by (rule Suc.IH [OF 2(2)])
    also have "\<dots> = snd st" by (rule assms [OF 2(1)])
    finally show ?thesis .
  qed
qed

lemma run_caps: "no_groups r \<Longrightarrow> st' \<in> set (run r st) \<Longrightarrow> snd st' = snd st"
proof (induction r arbitrary: st st')
  case Eps
  then show ?case by simp
next
  case (Sat p)
  then show ?case by (cases "fst st") (auto split: if_splits)
next
  case (Seq a b)
  from Seq.prems obtain mid where m: "mid \<in> set (run a st)" "st' \<in> set (run b mid)"
    by auto
  from Seq.prems(1) have na: "no_groups a" "no_groups b" by simp_all
  have "snd st' = snd mid" by (rule Seq.IH(2) [OF na(2) m(2)])
  also have "\<dots> = snd st" by (rule Seq.IH(1) [OF na(1) m(1)])
  finally show ?case .
next
  case (Alt a b)
  from Alt.prems(1) have na: "no_groups a" "no_groups b" by simp_all
  from Alt.prems(2) have "st' \<in> set (run a st) \<or> st' \<in> set (run b st)" by simp
  then show ?case
  proof
    assume "st' \<in> set (run a st)"
    then show ?thesis by (rule Alt.IH(1) [OF na(1)])
  next
    assume "st' \<in> set (run b st)"
    then show ?thesis by (rule Alt.IH(2) [OF na(2)])
  qed
next
  case (Star a)
  from Star.prems(1) have na: "no_groups a" by simp
  from Star.prems(2) have "st' \<in> set (star_iter (run a) (length (fst st)) st)" by simp
  then show ?case by (rule star_iter_caps [rotated]) (rule Star.IH [OF na])
next
  case (Grp i a)
  then show ?case by simp
qed

lemma run_chr: "st' \<in> set (run (chr c) st) \<Longrightarrow> fst st = c # fst st' \<and> snd st' = snd st"
  by (cases "fst st") (auto simp: chr_def split: if_splits)

lemma run_Grp_plain:
  assumes "no_groups a" and "st' \<in> set (run (Grp i a) st)"
  shows "\<exists>pre. fst st = pre @ fst st' \<and> snd st' = (i, pre) # snd st"
proof -
  from assms(2) obtain x where x: "x \<in> set (run a st)"
    and st': "st' = (fst x, (i, take (length (fst st) - length (fst x)) (fst st)) # snd x)"
    by auto
  from run_suffix [OF x] obtain pre where p: "fst st = pre @ fst x" by blast
  have c: "snd x = snd st" using run_caps [OF assms(1) x] .
  show ?thesis using p c st' by simp
qed

lemma run_SeqD:
  "st' \<in> set (run (Seq a b) st) \<Longrightarrow> \<exists>mid. mid \<in> set (run a st) \<and> st' \<in> set (run b mid)"
  by (simp only: run.simps set_concat set_map) blast

lemma match_full_SomeD:
  assumes "match_full r s = Some caps"
  shows "\<exists>st. st \<in> set (run r (s, [])) \<and> fst st = [] \<and> snd st = caps"
proof -
  from assms obtain st rest
    where f: "filter (\<lambda>st. fst st = []) (run r (s, [])) = st # rest" and c: "snd st = caps"
    by (auto simp: match_full_def split: list.splits)
  have "st \<in> set (filter (\<lambda>st. fst st = []) (run r (s, [])))"
    by (simp add: f)
  then have "st \<in> set (run r (s, [])) \<and> fst st = []" by simp
  then show ?thesis using c by blast
qed

text \<open>When the pattern for parameterized types matches, its first group is the text
  before a parenthesis of the input.\<close>

lemma PARAM_TYPE_match:
  assumes "match_full PARAM_TYPE n = Some caps"
  shows "\<exists>b rest. group caps 1 = Some b \<and> n = b @ CHR ''('' # rest"
proof -
  let ?X1 = "Plus (Sat is_word)"
  let ?X2 = "Plus (Sat (\<lambda>c. c \<noteq> CHR 0x0A \<and> c \<noteq> CHR 0x0D))"
  have ng: "no_groups ?X1" "no_groups ?X2" by (simp_all add: Plus_def)
  from match_full_SomeD [OF assms] obtain st
    where st: "st \<in> set (run PARAM_TYPE (n, []))" and caps: "snd st = caps"
    by blast
  have shape: "PARAM_TYPE
      = Seq (Grp 1 ?X1) (Seq (chr CHR ''('') (Seq (Grp 2 ?X2) (Seq (chr CHR '')'') Eps)))"
    by (simp add: PARAM_TYPE_def seqs_def)
  from run_SeqD [OF st [unfolded shape]] obtain s1 where s1: "s1 \<in> set (run (Grp 1 ?X1) (n, []))"
    and t1: "st \<in> set (run (Seq (chr CHR ''('') (Seq (Grp 2 ?X2) (Seq (chr CHR '')'') Eps))) s1)"
    by (elim exE conjE)
  from run_SeqD [OF t1] obtain s2 where s2: "s2 \<in> set (run (chr CHR ''('') s1)"
    and t2: "st \<in> set (run (Seq (Grp 2 ?X2) (Seq (chr CHR '')'') Eps)) s2)"
    by (elim exE conjE)
  from run_SeqD [OF t2] obtain s3 where s3: "s3 \<in> set (run (Grp 2 ?X2) s2)"
    and t3: "st \<in> set (run (Seq (chr CHR '')'') Eps) s3)"
    by (elim exE conjE)
  from run_SeqD [OF t3] obtain s4 where s4: "s4 \<in> set (run (chr CHR '')'') s3)"
    and t4: "st \<in> set (run Eps s4)"
    by (elim exE conjE)
  from t4 have fin: "st = s4" by simp
  from run_Grp_plain [OF ng(1) s1] obtain b where b: "n = b @ fst s1" "snd s1 = [(1, b)]"
    by auto
  from run_chr [OF s2] have c2: "fst s1 = CHR ''('' # fst s2" "snd s2 = snd s1" by simp_all
  from run_Grp_plain [OF ng(2) s3] obtain p where c3: "snd s3 = (2, p) # snd s2" by blast
  from run_chr [OF s4] have c4: "snd s4 = snd s3" by simp
  have "caps = [(2, p), (1, b)]" using caps fin c4 c3 c2 b by simp
  then have "group caps 1 = Some b" by (simp add: group_def)
  then show ?thesis using b(1) c2(1) by auto
qed


section \<open>The type mapper\<close>

lemma TYPE_MAPPING_nonempty:
  assumes "map_of TYPE_MAPPING k = Some v"
  shows "v \<noteq> []"
proof -
  have "list_all (\<lambda>kv. snd kv \<noteq> []) TYPE_MAPPING"
    by (simp add: TYPE_MAPPING_def)
  moreover have "(k, v) \<in> set TYPE_MAPPING"
    using assms by (rule map_of_SomeD)
  ultimately show ?thesis by (auto simp: list_all_iff)
qed

lemma table_type_nonempty: "table_type k \<noteq> []"
  by (auto simp: table_type_def TYPE_MAPPING_nonempty split: option.splits)

lemma type_or_text_own:
  assumes "k \<notin> set Object_prototype_keys"
  shows "type_or_text k = Val (table_type k)"
  using assms by (simp add: type_or_text_def obj_get_def table_type_def split: option.splits)

lemma endsWith_append:
  assumes "endsWith s p"
  shows "s = take (length s - length p) s @ p"
  using assms by (metis append_take_drop_id endsWith_def)

lemma TYPE_MAPPING_round_trip:
  assumes "map_of TYPE_MAPPING k = Some pg"
  shows "mapType k = Inr (Val pg) \<and> mapType (k @ ''[]'') = Inr (Val (pg @ ''[]''))"
proof -
  have "list_all (\<lambda>kv. mapType (fst kv) = Inr (Val (snd kv))
                        \<and> mapType (fst kv @ ''[]'') = Inr (Val (snd kv @ ''[]''))) TYPE_MAPPING"
    by code_simp
  moreover have "(k, pg) \<in> set TYPE_MAPPING"
    using assms by (rule map_of_SomeD)
  ultimately show ?thesis by (auto simp: list_all_iff)
qed

lemma not_inherited:
  assumes "\<not> reads_inherited_member n"
  shows "n \<notin> set Object_prototype_keys"
    and "n = b @ ''[]'' \<Longrightarrow> b \<notin> set Object_prototype_keys"
    and "n = b @ CHR ''('' # rest \<Longrightarrow> b \<notin> set Object_prototype_keys"
  using assms by (auto simp: reads_inherited_member_def list_ex_iff startsWith_def)

text \<open>
  C6, as the code has it.  Let the input, lower-cased and trimmed, not read a member of
  \<open>Object.prototype\<close> from the table.  Then \<open>mapType\<close> does not fail and returns a
  string that is not empty.  For an input ending in \<open>[]\<close> the result is the entry of
  the table for the base type, or the generic text type when the table has no entry
  for the base, with \<open>[]\<close> appended.  An input that is not an array, has no
  parenthesis and is not in the table maps to the generic text type.  For every type
  of the table the round trip holds: \<open>mapType\<close> of the type followed by \<open>[]\<close> is
  \<open>mapType\<close> of the type, followed by \<open>[]\<close>.
\<close>

theorem mapType_total:
  assumes "\<not> reads_inherited_member (normalized_type t)"
  shows "(\<exists>pg. mapType t = Inr (Val pg) \<and> pg \<noteq> [])
    \<and> (endsWith (normalized_type t) ''[]'' \<longrightarrow>
         mapType t = Inr (Val (table_type (take (length (normalized_type t) - 2) (normalized_type t))
                               @ ''[]'')))
    \<and> (\<not> endsWith (normalized_type t) ''[]'' \<and> CHR ''('' \<notin> set (normalized_type t)
         \<and> map_of TYPE_MAPPING (normalized_type t) = None \<longrightarrow> mapType t = Inr (Val ''TEXT''))
    \<and> (\<forall>k pg. map_of TYPE_MAPPING k = Some pg \<longrightarrow>
         mapType k = Inr (Val pg) \<and> mapType (k @ ''[]'') = Inr (Val (pg @ ''[]'')))"
proof -
  let ?n = "normalized_type t"
  have plain: "type_or_text ?n = Val (table_type ?n)"
    using not_inherited(1) [OF assms] by (rule type_or_text_own)
  have array: "mapType t = Inr (Val (table_type (take (length ?n - 2) ?n) @ ''[]''))"
    if e: "endsWith ?n ''[]''"
  proof -
    let ?b = "take (length ?n - 2) ?n"
    have "?n = ?b @ ''[]''" using endsWith_append [OF e] by (simp add: numeral_2_eq_2)
    then have "?b \<notin> set Object_prototype_keys"
      by (rule not_inherited(2) [OF assms])
    then have "type_or_text ?b = Val (table_type ?b)" by (rule type_or_text_own)
    then show ?thesis
      using e by (simp add: mapType_def normalized_type_def Let_def to_text_def)
  qed
  have no_match: "mapType t = Inr (Val (table_type ?n))"
    if e: "\<not> endsWith ?n ''[]''" and m: "match_full PARAM_TYPE ?n = None"
    using e m plain by (simp add: mapType_def normalized_type_def Let_def)
  have matched: "\<exists>pg. mapType t = Inr (Val pg) \<and> pg \<noteq> []"
    if e: "\<not> endsWith ?n ''[]''" and m: "match_full PARAM_TYPE ?n = Some caps" for caps
  proof -
    from PARAM_TYPE_match [OF m] obtain b rest
      where g: "group caps 1 = Some b" and n: "?n = b @ CHR ''('' # rest" by blast
    have b: "b \<notin> set Object_prototype_keys"
      using n by (rule not_inherited(3) [OF assms])
    show ?thesis
    proof (cases "group caps 2")
      case None
      then have "mapType t = Inr (Val (table_type ?n))"
        using e m g plain by (simp add: mapType_def normalized_type_def Let_def)
      then show ?thesis by (simp add: table_type_nonempty)
    next
      case (Some ps)
      show ?thesis
      proof (cases "map_of TYPE_MAPPING b")
        case None
        then have "obj_get TYPE_MAPPING b = None"
          using b by (simp add: obj_get_def)
        then have "mapType t = Inr (Val (table_type ?n))"
          using e m g Some plain by (simp add: mapType_def normalized_type_def Let_def)
        then show ?thesis by (simp add: table_type_nonempty)
      next
        case (Some pgBaseType)
        then have "obj_get TYPE_MAPPING b = Some (Val pgBaseType)"
          by (simp add: obj_get_def)
        then show ?thesis
          using e m g \<open>group caps 2 = Some ps\<close>
          by (simp add: mapType_def normalized_type_def Let_def)
      qed
    qed
  qed
  have total: "\<exists>pg. mapType t = Inr (Val pg) \<and> pg \<noteq> []"
  proof (cases "endsWith ?n ''[]''")
    case True
    then show ?thesis using array by simp
  next
    case False
    show ?thesis
    proof (cases "match_full PARAM_TYPE ?n")
      case None
      then show ?thesis using no_match [OF False] by (simp add: table_type_nonempty)
    next
      case (Some caps)
      then show ?thesis using matched [OF False] by blast
    qed
  qed
  have unknown: "mapType t = Inr (Val ''TEXT'')"
    if e: "\<not> endsWith ?n ''[]''" and p: "CHR ''('' \<notin> set ?n" and u: "map_of TYPE_MAPPING ?n = None"
  proof -
    have "match_full PARAM_TYPE ?n = None"
    proof (cases "match_full PARAM_TYPE ?n")
      case None
      then show ?thesis .
    next
      case (Some caps)
      from PARAM_TYPE_match [OF Some] obtain b rest where "?n = b @ CHR ''('' # rest" by blast
      then have "CHR ''('' \<in> set ?n" by (metis in_set_conv_decomp)
      then show ?thesis using p by simp
    qed
    then show ?thesis using no_match [OF e] u by (simp add: table_type_def)
  qed
  show ?thesis
    using total array unknown TYPE_MAPPING_round_trip by blast
qed

text \<open>\<open>mapType("int[]")\<close> starts with \<open>mapType("int")\<close> and ends with \<open>[]\<close>; an unknown
  type maps to \<open>TEXT\<close>.\<close>

theorem mapType_total_witness:
  "mapType ''int[]'' = Inr (Val ''INTEGER[]'')
   \<and> mapType ''int'' = Inr (Val ''INTEGER'')
   \<and> mapType ''Widget'' = Inr (Val ''TEXT'')"
proof -
  have h1: "\<not> reads_inherited_member (normalized_type ''int[]'')" by code_simp
  have h2: "\<not> reads_inherited_member (normalized_type ''Widget'')" by code_simp
  have e1: "endsWith (normalized_type ''int[]'') ''[]''" by code_simp
  have v1: "table_type (take (length (normalized_type ''int[]'') - 2) (normalized_type ''int[]'')) @ ''[]''
              = ''INTEGER[]''" by code_simp
  have k: "map_of TYPE_MAPPING ''int'' = Some ''INTEGER''" by code_simp
  have e2: "\<not> endsWith (normalized_type ''Widget'') ''[]'' \<and> CHR ''('' \<notin> set (normalized_type ''Widget'')
         \<and> map_of TYPE_MAPPING (normalized_type ''Widget'') = None" by code_simp
  show ?thesis
    using mapType_total [OF h1] mapType_total [OF h2] e1 v1 k e2 by simp
qed

text \<open>The base of an array is looked up in the table as it stands: for the base
  \<open>varchar(10)\<close> the array maps to \<open>TEXT[]\<close>, while the base itself maps to
  \<open>VARCHAR(10)\<close>.\<close>

theorem mapType_array_of_parameterized:
  "mapType ''varchar(10)[]'' = Inr (Val ''TEXT[]'')
   \<and> mapType ''varchar(10)'' = Inr (Val ''VARCHAR(10)'')"
  by code_simp

text \<open>The inputs left out above: the name of an inherited member is not mapped to a
  type, and before a parenthesis it makes \<open>mapType\<close> throw.\<close>

lemma mapType_inherited:
  "mapType ''constructor'' = Inr (Inherited ''constructor'')"
  "mapType ''constructor(1)'' = Inl TypeError"
  "mapType ''constructor[]'' = Inr (Val ''function Object() { [native code] }[]'')"
  by code_simp+

end
